theory Spec2Isabelle
  imports Complex_Main "HOL-Library.Sublist" "HOL-Library.Multiset"
begin

section \<open>Data model\<close>

text \<open>
  Python strings are modelled as \<open>string\<close>, Python floats as exact reals, and a
  \<^verbatim>\<open>Dict[str, Any]\<close> whose values are strings (a task, a search result) as a
  partial map from keys to strings: \<open>d k = None\<close> says that the key is absent.
\<close>

type_synonym dict = "string \<rightharpoonup> string"

text \<open>\<^verbatim>\<open>d.get(key, default)\<close>\<close>

definition dict_get :: "dict \<Rightarrow> string \<Rightarrow> string \<Rightarrow> string" where
  "dict_get d k dflt = (case d k of None \<Rightarrow> dflt | Some v \<Rightarrow> v)"

text \<open>Truthiness of an optional string: \<^verbatim>\<open>None\<close> and \<^verbatim>\<open>""\<close> are falsy.\<close>

definition truthy :: "string option \<Rightarrow> bool" where
  "truthy v = (case v of None \<Rightarrow> False | Some s \<Rightarrow> s \<noteq> [])"

text \<open>
  A raised exception that is an instance of \<^verbatim>\<open>Exception\<close>, which is what the
  handlers \<^verbatim>\<open>except Exception\<close> of the code catch, with the text that \<^verbatim>\<open>str(e)\<close>
  gives. A cancellation or an interrupt of the process is not modelled.
\<close>

datatype exn = Exception string

fun str_exn :: "exn \<Rightarrow> string" where
  "str_exn (Exception msg) = msg"

text \<open>agent.py, \<^verbatim>\<open>class TaskResult(BaseModel)\<close>.\<close>

record TaskResult =
  task_id :: string
  task_description :: string
  findings :: string
  sources :: "string list"
  confidence_score :: real
  status :: string

text \<open>
  An item of \<^verbatim>\<open>extracted_content\<close> (web_researcher.py, the dictionary built by
  \<^verbatim>\<open>extract_single_source\<close>). The code reads the score with
  \<^verbatim>\<open>content.get("relevance_score", 0)\<close>, so the key may be absent: \<open>None\<close>.
\<close>

record extracted =
  url :: string
  title :: string
  domain :: string
  content :: string
  snippet :: string
  relevance_score :: "real option"

definition get_relevance_score :: "extracted \<Rightarrow> real" where
  "get_relevance_score c = (case relevance_score c of None \<Rightarrow> 0 | Some r \<Rightarrow> r)"

section \<open>WebResearcher: scores\<close>

text \<open>
  \<^verbatim>\<open>
  def calculate_confidence_score(self, extracted_content, sources):
      if not extracted_content:
          return 0.0
      source_score = min(len(sources) * 0.2, 0.6)
      avg_relevance = sum(content.get("relevance_score", 0)
                        for content in extracted_content) / len(extracted_content)
      quality_score = avg_relevance * 0.4
      return min(source_score + quality_score, 0.95)
  \<close>
\<close>

definition calculate_confidence_score :: "extracted list \<Rightarrow> string list \<Rightarrow> real" where
  "calculate_confidence_score extracted_content srcs =
     (if extracted_content = [] then 0
      else
        let source_score = min (real (length srcs) * 0.2) 0.6;
            avg_relevance = sum_list (map get_relevance_score extracted_content)
                              / real (length extracted_content);
            quality_score = avg_relevance * 0.4
        in min (source_score + quality_score) 0.95)"

text \<open>
  The formula as the specification words it: a source-count term
  \<open>min(0.2 * min(len(reliable_sources), 3), 0.6)\<close> plus \<open>0.4\<close> times the mean of the
  relevance scores of all extracted items, the sum capped at \<open>0.95\<close>; \<open>0.0\<close> when
  nothing was extracted.
\<close>

definition mean :: "real list \<Rightarrow> real" where
  "mean xs = sum_list xs / real (length xs)"

definition spec_confidence :: "extracted list \<Rightarrow> string list \<Rightarrow> real" where
  "spec_confidence extracted_content reliable_sources =
     (if extracted_content = [] then 0
      else min (min (0.2 * real (min (length reliable_sources) 3)) 0.6
                + 0.4 * mean (map get_relevance_score extracted_content)) 0.95)"

text \<open>
  \<^verbatim>\<open>
  def calculate_relevance_score(self, content, source):
      score = 0.0
      domain = source.get("domain", "")
      if any(trusted in domain for trusted in [".edu", ".gov", ".org"]):
          score += 0.3
      elif any(news in domain for news in ["bbc", "reuters", "cnn", "nytimes"]):
          score += 0.2
      if len(content) > 1000:
          score += 0.2
      elif len(content) > 500:
          score += 0.1
      title = source.get("title", "").lower()
      if len(title) > 10:
          score += 0.1
      return min(score, 1.0)
  \<close>
  \<^verbatim>\<open>a in b\<close> on strings is \<open>sublist a b\<close>; \<^verbatim>\<open>lower()\<close> keeps the length of the
  strings modelled here, and only the length of the title is read.
\<close>

definition calculate_relevance_score :: "string \<Rightarrow> dict \<Rightarrow> real" where
  "calculate_relevance_score text source =
     (let dom = dict_get source ''domain'' [];
          score1 = (if list_ex (\<lambda>trusted. sublist trusted dom) [''.edu'', ''.gov'', ''.org'']
                    then 0.3
                    else if list_ex (\<lambda>news. sublist news dom)
                              [''bbc'', ''reuters'', ''cnn'', ''nytimes'']
                    then 0.2 else 0);
          score2 = (if length text > 1000 then score1 + 0.2
                    else if length text > 500 then score1 + 0.1 else score1);
          score3 = (if length (dict_get source ''title'' []) > 10 then score2 + 0.1
                    else score2)
      in min score3 1)"

text \<open>
  \<^verbatim>\<open>
  def extract_reliable_sources(self, extracted_content):
      return [content["url"] for content in extracted_content
              if content.get("relevance_score", 0) > 0.1]
  \<close>
\<close>

definition extract_reliable_sources :: "extracted list \<Rightarrow> string list" where
  "extract_reliable_sources extracted_content =
     map url (filter (\<lambda>c. get_relevance_score c > 0.1) extracted_content)"

section \<open>Numbers as text, whitespace\<close>

text \<open>\<^verbatim>\<open>str(n)\<close> for a natural number, as the f-strings print an index or a status.\<close>

fun str_nat :: "nat \<Rightarrow> string" where
  "str_nat n =
     (if n < 10 then [''0123456789'' ! n]
      else str_nat (n div 10) @ [''0123456789'' ! (n mod 10)])"

declare str_nat.simps [simp del]

text \<open>
  The characters \<^verbatim>\<open>str.isspace\<close> and the pattern \<^verbatim>\<open>\s\<close> accept, among the
  code points below 256: tab, line feed, vertical tab, form feed, carriage return, the
  separators 0x1C to 0x1F, space, 0x85 and 0xA0.
\<close>

definition is_space :: "char \<Rightarrow> bool" where
  "is_space c = (c \<in> set [CHR 0x09, CHR 0x0A, CHR 0x0B, CHR 0x0C, CHR 0x0D, CHR 0x1C,
                           CHR 0x1D, CHR 0x1E, CHR 0x1F, CHR 0x20, CHR 0x85, CHR 0xA0])"

text \<open>\<^verbatim>\<open>s.strip()\<close>\<close>

definition strip :: "string \<Rightarrow> string" where
  "strip s = rev (dropWhile is_space (rev (dropWhile is_space s)))"

text \<open>\<^verbatim>\<open>s.replace(a, b)\<close> for single characters \<open>a\<close> and \<open>b\<close>.\<close>

definition replace_char :: "char \<Rightarrow> char \<Rightarrow> string \<Rightarrow> string" where
  "replace_char a b s = map (\<lambda>c. if c = a then b else c) s"

text \<open>
  \<^verbatim>\<open>s.replace(old, new)\<close> for a non-empty \<open>old\<close>: the occurrences are replaced from
  the left and do not overlap. The first argument counts the characters of a matched
  occurrence still to be skipped.
\<close>

fun replace_from :: "nat \<Rightarrow> string \<Rightarrow> string \<Rightarrow> string \<Rightarrow> string" where
  "replace_from k old new [] = []"
| "replace_from k old new (c # cs) =
     (if k > 0 then replace_from (k - 1) old new cs
      else if prefix old (c # cs) then new @ replace_from (length old - 1) old new cs
      else c # replace_from 0 old new cs)"

definition replace_str :: "string \<Rightarrow> string \<Rightarrow> string \<Rightarrow> string" where
  "replace_str old new s = replace_from 0 old new s"

text \<open>\<^verbatim>\<open>sep.join(parts)\<close>\<close>

fun join :: "string \<Rightarrow> string list \<Rightarrow> string" where
  "join sep [] = []"
| "join sep [x] = x"
| "join sep (x # y # ys) = x @ sep @ join sep (y # ys)"

section \<open>Concurrent execution\<close>

text \<open>
  \<^verbatim>\<open>await asyncio.gather(*coros, return_exceptions=True)\<close>. A coroutine is given by
  the time at which it completes and its outcome. Each coroutine stores its outcome in
  the slot of its own position when it completes, in the order of completion (equal
  times in any fixed order); the awaiting caller resumes when every coroutine has
  completed and reads the slots from left to right.
\<close>

definition completion_order :: "(nat \<times> 'a) list \<Rightarrow> nat list" where
  "completion_order coros = sort_key (\<lambda>i. fst (coros ! i)) [0..<length coros]"

definition gather :: "(nat \<times> 'a) list \<Rightarrow> 'a list" where
  "gather coros =
     List.map_filter (\<lambda>slot. slot)
       (fold (\<lambda>i slots. slots[i := Some (snd (coros ! i))])
          (completion_order coros) (replicate (length coros) None))"

section \<open>WebResearcher\<close>

text \<open>
  What the \<^verbatim>\<open>WebResearcher\<close> reads from outside: the two credentials from the
  process environment, the search provider, the pages of the web and the language
  model. Each external call is a function from its request to either a raised exception
  or its response.
\<close>

datatype google_response =
  GoogleOk "dict list"
| GoogleError nat string

text \<open>
  \<open>GoogleOk items\<close> is a response of status 200 with the \<^verbatim>\<open>items\<close> of its JSON body
  (none when the key is absent); \<open>GoogleError status text\<close> is any other response.
  \<open>http_get\<close> maps a URL to a raised exception, or to the status and the text that
  BeautifulSoup extracts from the page. \<open>clean_extracted_content\<close> stands for the
  regular-expression substitutions and the final \<^verbatim>\<open>strip\<close> of the method of that
  name. \<open>fetch_time\<close> is the time at which the extraction of a search result completes.
  \<open>synthesis_llm\<close> is the chat completion, as a function of what its prompt is built
  from.
\<close>

record web_env =
  google_api_key :: "string option"
  google_search_engine_id :: "string option"
  google_http_get :: "string \<Rightarrow> exn + google_response"
  urlparse_netloc :: "string \<Rightarrow> string"
  http_get :: "string \<Rightarrow> exn + nat \<times> string"
  clean_extracted_content :: "string \<Rightarrow> string"
  fetch_time :: "dict \<Rightarrow> nat"
  synthesis_llm :: "string \<Rightarrow> string \<Rightarrow> string \<Rightarrow> extracted list \<Rightarrow> exn + string"

definition startswith :: "string \<Rightarrow> string \<Rightarrow> bool" where
  "startswith s p = prefix p s"

text \<open>\<^verbatim>\<open>parse_google_search_results\<close>: the loop body, then the loop.\<close>

definition parse_google_item :: "web_env \<Rightarrow> dict \<Rightarrow> dict option" where
  "parse_google_item env item =
     (let display_link = dict_get item ''displayLink'' [];
          link = dict_get item ''link'' [];
          dom = (if display_link \<noteq> [] then display_link else urlparse_netloc env link);
          result = map_of
            [(''title'', dict_get item ''title'' ''No title''),
             (''url'', link),
             (''snippet'', dict_get item ''snippet'' ''No snippet available''),
             (''domain'', dom),
             (''source'', ''google_search'')]
      in if link \<noteq> [] \<and> (startswith link ''http://'' \<or> startswith link ''https://'')
         then Some result else None)"

definition parse_google_search_results :: "web_env \<Rightarrow> dict list \<Rightarrow> dict list" where
  "parse_google_search_results env items = List.map_filter (parse_google_item env) items"

definition call_google_search_api :: "web_env \<Rightarrow> string \<Rightarrow> exn + dict list" where
  "call_google_search_api env query =
     (if \<not> truthy (google_api_key env) \<or> \<not> truthy (google_search_engine_id env)
      then Inl (Exception ''Google Search API credentials not configured'')
      else case google_http_get env query of
             Inl e \<Rightarrow> Inl e
           | Inr (GoogleOk items) \<Rightarrow> Inr (parse_google_search_results env items)
           | Inr (GoogleError code error_text) \<Rightarrow>
               Inl (Exception (''Google Search API error '' @ str_nat code @ '': ''
                                @ error_text)))"

definition simulate_search_results :: "string \<Rightarrow> dict list" where
  "simulate_search_results query =
     [map_of
        [(''title'', ''Research on '' @ query),
         (''url'', ''https://example.com/research/'' @ replace_char CHR '' '' CHR ''-'' query),
         (''snippet'', ''Comprehensive information about '' @ query),
         (''domain'', ''example.com''),
         (''source'', ''simulated'')],
      map_of
        [(''title'', query @ '' - Academic Study''),
         (''url'', ''https://academic.edu/study/'' @ replace_char CHR '' '' CHR ''_'' query),
         (''snippet'', ''Academic research on '' @ query),
         (''domain'', ''academic.edu''),
         (''source'', ''simulated'')]]"

text \<open>
  \<^verbatim>\<open>
  search_results = []
  if self.google_api_key and self.google_search_engine_id:
      try:
          search_results = await self.call_google_search_api(query)
      except Exception as e:
          print(...)
  if not search_results:
      search_results = await self.simulate_search_results(query)
  return search_results
  \<close>
\<close>

definition perform_web_search :: "web_env \<Rightarrow> string \<Rightarrow> dict list" where
  "perform_web_search env query =
     (let search_results =
            (if truthy (google_api_key env) \<and> truthy (google_search_engine_id env)
             then (case call_google_search_api env query of
                     Inr rs \<Rightarrow> rs
                   | Inl e \<Rightarrow> [])
             else [])
      in if search_results = [] then simulate_search_results query else search_results)"

text \<open>
  \<^verbatim>\<open>scrape_web_content\<close>: \<^verbatim>\<open>None\<close> when the request raises and when the status
  is not 200 (the function then ends without a \<^verbatim>\<open>return\<close>); otherwise the cleaned
  text, \<^verbatim>\<open>content[:5000]\<close>.
\<close>

definition scrape_web_content :: "web_env \<Rightarrow> string \<Rightarrow> string option" where
  "scrape_web_content env u =
     (case http_get env u of
        Inl e \<Rightarrow> None
      | Inr (code, text) \<Rightarrow>
          if code = 200 then Some (take 5000 (clean_extracted_content env text)) else None)"

text \<open>
  \<^verbatim>\<open>
  async def extract_single_source(source):
      async with semaphore:
          try:
              content = await self.scrape_web_content(source["url"])
              if content and len(content) > 100:
                  return {"url": source["url"], "title": source["title"],
                          "domain": source["domain"], "content": content,
                          "snippet": source.get("snippet", ""),
                          "relevance_score": self.calculate_relevance_score(content, source)}
          except Exception as e:
              return None
  \<close>
  A missing key of \<^verbatim>\<open>source\<close> raises \<^verbatim>\<open>KeyError\<close> inside the \<^verbatim>\<open>try\<close>.
\<close>

definition extract_single_source :: "web_env \<Rightarrow> dict \<Rightarrow> extracted option" where
  "extract_single_source env source =
     (case source ''url'' of
        None \<Rightarrow> None
      | Some u \<Rightarrow>
         (case scrape_web_content env u of
            None \<Rightarrow> None
          | Some text \<Rightarrow>
              if text \<noteq> [] \<and> length text > 100 then
                (case source ''title'' of
                   None \<Rightarrow> None
                 | Some t \<Rightarrow>
                    (case source ''domain'' of
                       None \<Rightarrow> None
                     | Some d \<Rightarrow>
                         Some \<lparr>url = u, title = t, domain = d, content = text,
                               snippet = dict_get source ''snippet'' [],
                               relevance_score =
                                 Some (calculate_relevance_score text source)\<rparr>))
              else None))"

text \<open>
  \<^verbatim>\<open>extract_content_from_sources\<close>: at most \<^verbatim>\<open>max_sources = 10\<close> results are
  fetched, the failed extractions are filtered out, and the list is sorted by
  descending relevance (\<^verbatim>\<open>sort\<close> with \<^verbatim>\<open>reverse=True\<close> is stable). The scores are
  exact reals here: two scores that the code's floating-point sums tell apart by a
  rounding error (\<open>0.2 + 0.1\<close> against \<open>0.3\<close>) are equal in the model, so the relative
  order of two such items can differ from the code's. The statements below are about
  the items of the list and their number, never about their order.
\<close>

definition max_sources :: nat where
  "max_sources = 10"

definition extract_content_from_sources :: "web_env \<Rightarrow> dict list \<Rightarrow> extracted list" where
  "extract_content_from_sources env search_results =
     (if search_results = [] then []
      else
        let limited_results = take max_sources search_results;
            extraction_tasks =
              map (\<lambda>source. (fetch_time env source, extract_single_source env source))
                limited_results;
            results = gather extraction_tasks;
            extracted_content = List.map_filter (\<lambda>result. result) results
        in sort_key (\<lambda>x. - get_relevance_score x) extracted_content)"

text \<open>\<^verbatim>\<open>create_fallback_summary\<close>, and the lines of its loop over the first two items.\<close>

fun summary_lines :: "nat \<Rightarrow> extracted list \<Rightarrow> string list" where
  "summary_lines i [] = []"
| "summary_lines i (content_item # rest) =
     (str_nat i @ ''. From '' @ domain content_item @ '': ''
        @ take 200 (content content_item) @ ''...'')
     # summary_lines (Suc i) rest"

definition create_fallback_summary :: "string \<Rightarrow> extracted list \<Rightarrow> string" where
  "create_fallback_summary query extracted_content =
     (if extracted_content = []
      then ''No substantial information found for '' @ [CHR 0x27] @ query @ [CHR 0x27] @ ''.''
      else join [CHR 0x0A]
             ((''Research findings for '' @ [CHR 0x27] @ query @ [CHR 0x27] @ '':''
                 @ [CHR 0x0A])
              # summary_lines 1 (take 2 extracted_content)))"

text \<open>
  \<^verbatim>\<open>synthesize_research_findings\<close>: the prompt is built from the query, the
  description, the context and the first three extracted items.
\<close>

definition synthesize_research_findings ::
  "web_env \<Rightarrow> string \<Rightarrow> string \<Rightarrow> string \<Rightarrow> extracted list \<Rightarrow> string" where
  "synthesize_research_findings env query description context extracted_content =
     (if extracted_content = []
      then ''Unable to find substantial information about '' @ [CHR 0x27] @ query
           @ [CHR 0x27] @ ''. No reliable sources were accessible.''
      else case synthesis_llm env query description context (take 3 extracted_content) of
             Inr synthesized_findings \<Rightarrow> synthesized_findings
           | Inl e \<Rightarrow> create_fallback_summary query extracted_content)"

text \<open>
  \<^verbatim>\<open>WebResearcher.execute_task\<close>; \<^verbatim>\<open>self.agent_id\<close> is \<^verbatim>\<open>"web_researcher"\<close>.
\<close>

definition web_researcher_id :: string where
  "web_researcher_id = ''web_researcher''"

definition web_execute_task :: "web_env \<Rightarrow> dict \<Rightarrow> TaskResult" where
  "web_execute_task env task =
     (let query = task ''query'';
          description = dict_get task ''description'' ''No description provided'';
          context = dict_get task ''context'' []
      in if \<not> truthy query then
           \<lparr>task_id = web_researcher_id, task_description = description,
            findings = ''No query provided for web search'', sources = [],
            confidence_score = 0, status = ''failed''\<rparr>
         else
           let q = the query;
               search_results = perform_web_search env q;
               extracted_content = extract_content_from_sources env search_results;
               synthesized_findings =
                 synthesize_research_findings env q description context extracted_content;
               reliable_sources = extract_reliable_sources extracted_content;
               score = calculate_confidence_score extracted_content reliable_sources
           in \<lparr>task_id = web_researcher_id, task_description = description,
               findings = synthesized_findings, sources = reliable_sources,
               confidence_score = score, status = ''completed''\<rparr>)"

text \<open>\<^verbatim>\<open>WebResearcher.can_handle_task\<close>\<close>

definition web_can_handle_task :: "string \<Rightarrow> bool" where
  "web_can_handle_task task_type =
     (task_type \<in> set [''web_search'', ''fact_checking'', ''current_events''])"

text \<open>
  Two concrete environments. In \<open>offline_env\<close> no credential is configured and every
  external call raises. \<open>page_env page\<close> differs in that every URL answers with status
  200 and the text \<open>page\<close>, which the cleaning leaves as it is.
\<close>

definition offline_env :: web_env where
  "offline_env =
     \<lparr>google_api_key = None, google_search_engine_id = None,
      google_http_get = (\<lambda>query. Inl (Exception ''offline'')),
      urlparse_netloc = (\<lambda>u. []),
      http_get = (\<lambda>u. Inl (Exception ''offline'')),
      clean_extracted_content = (\<lambda>text. text),
      fetch_time = (\<lambda>source. 0),
      synthesis_llm = (\<lambda>query description context items. Inl (Exception ''offline''))\<rparr>"

definition page_env :: "string \<Rightarrow> web_env" where
  "page_env page = offline_env\<lparr>http_get := (\<lambda>u. Inr (200, page))\<rparr>"

text \<open>A task as \<^verbatim>\<open>plan_research\<close> builds it, and a search result.\<close>

definition sample_task :: dict where
  "sample_task =
     map_of [(''task_id'', ''research_task_1''), (''type'', ''web_search''),
             (''query'', ''solar power''), (''description'', ''Research on solar power''),
             (''context'', ''comprehensive overview''), (''priority'', ''high'')]"

definition sample_source :: dict where
  "sample_source =
     map_of [(''title'', ''Research on solar power''),
             (''url'', ''https://example.com/research/solar-power''),
             (''snippet'', ''Comprehensive information about solar power''),
             (''domain'', ''example.com''), (''source'', ''simulated'')]"

section \<open>Agents and the Supervisor\<close>

text \<open>
  agent.py, \<^verbatim>\<open>class BaseAgent(ABC)\<close>: an agent is its identifier, its capabilities
  and its two abstract methods. \<open>execute_task\<close> either raises (\<open>Inl\<close>) or returns a
  \<open>TaskResult\<close> (\<open>Inr\<close>).
\<close>

record agent =
  agent_id :: string
  capabilities :: "string list"
  can_handle_task :: "string \<Rightarrow> bool"
  execute_task :: "dict \<Rightarrow> exn + TaskResult"

text \<open>The \<^verbatim>\<open>WebResearcher\<close> as an agent.\<close>

definition web_researcher :: "web_env \<Rightarrow> agent" where
  "web_researcher env =
     \<lparr>agent_id = web_researcher_id,
      capabilities = [''web_search'', ''content_extraction'', ''fact_checking''],
      can_handle_task = web_can_handle_task,
      execute_task = (\<lambda>task. Inr (web_execute_task env task))\<rparr>"

text \<open>An agent that accepts every task type and whose execution always raises.\<close>

definition failing_agent :: agent where
  "failing_agent =
     \<lparr>agent_id = ''failing_agent'', capabilities = [],
      can_handle_task = (\<lambda>task_type. True),
      execute_task = (\<lambda>task. Inl (Exception ''connection lost''))\<rparr>"

record supervisor =
  sub_agents :: "agent list"
  task_queue :: "dict list"
  max_parallel_tasks :: nat

text \<open>
  A supervisor whose only agent accepts the task types of the \<^verbatim>\<open>WebResearcher\<close> and
  always raises, and a task of a type that no agent accepts.
\<close>

definition sample_supervisor :: supervisor where
  "sample_supervisor =
     \<lparr>sub_agents = [failing_agent\<lparr>can_handle_task := web_can_handle_task\<rparr>],
      task_queue = [], max_parallel_tasks = 10\<rparr>"

definition unsupported_task :: dict where
  "unsupported_task =
     map_of [(''task_id'', ''research_task_2''), (''type'', ''data_analysis''),
             (''query'', ''solar power output''), (''description'', ''Analyse the output'')]"

text \<open>
  \<^verbatim>\<open>
  def group_tasks_by_type(self, tasks):
      task_groups = {}
      for task in tasks:
          task_type = task.get("type", "unknown")
          if task_type not in task_groups:
              task_groups[task_type] = []
          task_groups[task_type].append(task)
      return task_groups
  \<close>
  The dictionary keeps its keys in the order of their insertion, which the loop of
  \<^verbatim>\<open>delegate_tasks\<close> follows: it is modelled as an association list.
\<close>

definition group_step :: "dict \<Rightarrow> (string \<times> dict list) list \<Rightarrow> (string \<times> dict list) list"
  where
  "group_step task task_groups =
     (let task_type = dict_get task ''type'' ''unknown'';
          task_groups1 = (if map_of task_groups task_type = None
                          then task_groups @ [(task_type, [])] else task_groups)
      in map (\<lambda>(k, task_list). if k = task_type then (k, task_list @ [task])
                                else (k, task_list)) task_groups1)"

definition group_tasks_by_type :: "dict list \<Rightarrow> (string \<times> dict list) list" where
  "group_tasks_by_type tasks = fold group_step tasks []"

text \<open>
  \<^verbatim>\<open>
  async def execute_single_task(task, agent):
      async with semaphore:
          try:
              result = await agent.execute_task(task)
              return result
          except Exception as e:
              return TaskResult(task_id=task.get("task_id", "failed_task"),
                                task_description=task.get("description", "Failed task"),
                                findings=f"Task failed with error: {str(e)}",
                                sources=[], confidence_score=0.0, status="failed")
  \<close>
\<close>

definition execute_single_task :: "dict \<Rightarrow> agent \<Rightarrow> exn + TaskResult" where
  "execute_single_task task a =
     (case execute_task a task of
        Inr result \<Rightarrow> Inr result
      | Inl e \<Rightarrow>
          Inr \<lparr>task_id = dict_get task ''task_id'' ''failed_task'',
               task_description = dict_get task ''description'' ''Failed task'',
               findings = ''Task failed with error: '' @ str_exn e,
               sources = [], confidence_score = 0, status = ''failed''\<rparr>)"

text \<open>
  \<^verbatim>\<open>
  task_assignments = []
  for i, task in enumerate(tasks):
      agent = agents[i % len(agents)]
      task_assignments.append(execute_single_task(task, agent))
  \<close>
  \<open>exec_time i task\<close> is the time at which the execution of the task at position \<open>i\<close>
  completes. The semaphore of \<^verbatim>\<open>max_parallel_tasks\<close> slots delays the start of an
  execution and leaves its outcome as it is: its effect is part of the completion times.
\<close>

fun task_assignments ::
  "(nat \<Rightarrow> dict \<Rightarrow> nat) \<Rightarrow> agent list \<Rightarrow> nat \<Rightarrow> dict list \<Rightarrow> (nat \<times> (exn + TaskResult)) list"
  where
  "task_assignments exec_time agents i [] = []"
| "task_assignments exec_time agents i (task # rest) =
     (exec_time i task, execute_single_task task (agents ! (i mod length agents)))
     # task_assignments exec_time agents (Suc i) rest"

text \<open>
  \<^verbatim>\<open>
  if not tasks or not agents:
      return []
  ...
  results = await asyncio.gather(*task_assignments, return_exceptions=True)
  valid_results = [result for result in results if isinstance(result, TaskResult)]
  return valid_results
  \<close>
\<close>

definition execute_tasks_parallel ::
  "(nat \<Rightarrow> dict \<Rightarrow> nat) \<Rightarrow> dict list \<Rightarrow> agent list \<Rightarrow> TaskResult list" where
  "execute_tasks_parallel exec_time tasks agents =
     (if tasks = [] \<or> agents = [] then []
      else
        let results = gather (task_assignments exec_time agents 0 tasks)
        in List.map_filter
             (\<lambda>result. case result of Inr r \<Rightarrow> Some r | Inl e \<Rightarrow> None) results)"

text \<open>
  \<^verbatim>\<open>
  if not tasks:
      return []
  task_groups = self.group_tasks_by_type(tasks)
  all_results = []
  for task_type, task_list in task_groups.items():
      capable_agents = []
      for agent in self.sub_agents:
          if agent.can_handle_task(task_type):
              capable_agents.append(agent)
      if capable_agents:
          results = await self.execute_tasks_parallel(task_list, capable_agents)
          all_results.extend(results)
      else:
          print(...)
  return all_results
  \<close>
\<close>

definition capable_agents :: "supervisor \<Rightarrow> string \<Rightarrow> agent list" where
  "capable_agents self task_type = filter (\<lambda>a. can_handle_task a task_type) (sub_agents self)"

definition delegate_step ::
  "supervisor \<Rightarrow> (nat \<Rightarrow> dict \<Rightarrow> nat) \<Rightarrow> string \<times> dict list \<Rightarrow> TaskResult list
     \<Rightarrow> TaskResult list" where
  "delegate_step self exec_time grp all_results =
     (let agents = capable_agents self (fst grp)
      in if agents \<noteq> []
         then all_results @ execute_tasks_parallel exec_time (snd grp) agents
         else all_results)"

definition delegate_tasks ::
  "supervisor \<Rightarrow> (nat \<Rightarrow> dict \<Rightarrow> nat) \<Rightarrow> dict list \<Rightarrow> TaskResult list" where
  "delegate_tasks self exec_time tasks =
     (if tasks = [] then []
      else fold (delegate_step self exec_time) (group_tasks_by_type tasks) [])"

text \<open>
  The number of results that a list of groups yields: the tasks of the groups for which
  some agent is capable.
\<close>

definition group_count :: "supervisor \<Rightarrow> (string \<times> dict list) list \<Rightarrow> nat" where
  "group_count self task_groups =
     sum_list (map (\<lambda>grp. if capable_agents self (fst grp) \<noteq> [] then length (snd grp) else 0)
                 task_groups)"

text \<open>
  The executions that \<^verbatim>\<open>delegate_tasks\<close> starts for a list of groups, in the order of
  its loops: for each group with a capable agent, each task of the group with the agent
  that \<^verbatim>\<open>execute_tasks_parallel\<close> assigns to it. \<open>covered_tasks\<close> lists the tasks of
  these executions.
\<close>

definition assignments :: "supervisor \<Rightarrow> (string \<times> dict list) list \<Rightarrow> (dict \<times> agent) list" where
  "assignments self task_groups =
     concat (map (\<lambda>grp. let agents = capable_agents self (fst grp)
                         in if agents \<noteq> []
                            then map (\<lambda>(i, task). (task, agents ! (i mod length agents)))
                                   (enumerate 0 (snd grp))
                            else [])
               task_groups)"

definition covered_tasks :: "supervisor \<Rightarrow> (string \<times> dict list) list \<Rightarrow> dict list" where
  "covered_tasks self task_groups =
     concat (map (\<lambda>grp. if capable_agents self (fst grp) \<noteq> [] then snd grp else [])
               task_groups)"

subsection \<open>Follow-up questions\<close>

text \<open>
  The chat completion of \<^verbatim>\<open>generate_follow_up_questions\<close> is a function of the
  research topic, from which its prompt is built: it raises or returns the content of
  the first choice. \<open>json_loads\<close> is \<^verbatim>\<open>json.loads\<close> followed by the two reads
  \<^verbatim>\<open>question_data.get("questions", [])\<close> and \<^verbatim>\<open>question_data.get("explanation", "")\<close>:
  it raises when the text is not JSON or the payload has no \<^verbatim>\<open>get\<close>.
\<close>

record question_data =
  questions :: "string list option"
  explanation :: "string option"

record llm_env =
  follow_up_llm :: "string \<Rightarrow> exn + string"
  json_loads :: "string \<Rightarrow> exn + question_data"

definition newline :: string where
  "newline = [CHR 0x0A]"

definition code_fence :: string where
  "code_fence = replicate 3 (CHR 0x60)"

text \<open>\<^verbatim>\<open>for i, question in enumerate(questions, 1): message += f"{i}. {question}\n"\<close>\<close>

fun numbered_lines :: "nat \<Rightarrow> string list \<Rightarrow> string" where
  "numbered_lines i [] = []"
| "numbered_lines i (question # rest) =
     str_nat i @ ''. '' @ question @ newline @ numbered_lines (Suc i) rest"

definition message_header :: string where
  "message_header =
     ''To better focus the research, please consider these follow-up questions:''
     @ newline @ newline"

definition fallback_questions :: "string \<Rightarrow> string list" where
  "fallback_questions research_topic =
     [''What specific aspects of '' @ research_topic @ '' are you most interested in?'',
      ''Are there any time constraints or geographic focus for this research on ''
        @ research_topic @ ''?'',
      ''What is the primary goal or outcome you hope to achieve with this research?'']"

definition follow_up_fallback :: "string \<Rightarrow> string list \<times> string" where
  "follow_up_fallback research_topic =
     (fallback_questions research_topic,
      message_header @ numbered_lines 1 (fallback_questions research_topic))"

text \<open>
  \<^verbatim>\<open>
  response_text = response.choices[0].message.content.strip()
  if response_text.startswith("```json"):
      response_text = response_text.replace("```json", "").replace("```", "").strip()
  \<close>
\<close>

definition clean_response :: "string \<Rightarrow> string" where
  "clean_response reply =
     (let response_text = strip reply
      in if startswith response_text (code_fence @ ''json'')
         then strip (replace_str code_fence []
                       (replace_str (code_fence @ ''json'') [] response_text))
         else response_text)"

text \<open>
  \<^verbatim>\<open>generate_follow_up_questions\<close>: the \<^verbatim>\<open>try\<close> block, and the fallback of its
  \<^verbatim>\<open>except Exception\<close> handler.
\<close>

definition generate_follow_up_questions :: "llm_env \<Rightarrow> string \<Rightarrow> string list \<times> string" where
  "generate_follow_up_questions env research_topic =
     (case follow_up_llm env research_topic of
        Inl e \<Rightarrow> follow_up_fallback research_topic
      | Inr reply \<Rightarrow>
          (case json_loads env (clean_response reply) of
             Inl e \<Rightarrow> follow_up_fallback research_topic
           | Inr data \<Rightarrow>
               let qs = (case questions data of None \<Rightarrow> [] | Some l \<Rightarrow> l);
                   expl = (case explanation data of None \<Rightarrow> [] | Some s \<Rightarrow> s)
               in (qs, message_header @ numbered_lines 1 qs @ newline @ expl)))"

text \<open>
  Two providers: one whose every call raises, and one that answers with text that is
  not JSON.
\<close>

definition failing_llm :: llm_env where
  "failing_llm =
     \<lparr>follow_up_llm = (\<lambda>research_topic. Inl (Exception ''provider down'')),
      json_loads = (\<lambda>response_text. Inl (Exception ''Expecting value''))\<rparr>"

definition garbled_llm :: llm_env where
  "garbled_llm =
     \<lparr>follow_up_llm = (\<lambda>research_topic. Inr ''Sorry, I cannot help.''),
      json_loads = (\<lambda>response_text. Inl (Exception ''Expecting value''))\<rparr>"

section \<open>Speaker\<close>

text \<open>
  \<^verbatim>\<open>re.split(r'(?<=[.!?])\s+', text)\<close>: the text is cut at every maximal run of
  whitespace that follows one of the characters \<^verbatim>\<open>.!?\<close>. \<open>cur\<close> is the piece read so
  far; \<open>in_sep\<close> says that the scan is inside a separator.
\<close>

fun re_split :: "bool \<Rightarrow> string \<Rightarrow> string \<Rightarrow> string list" where
  "re_split in_sep cur [] = [cur]"
| "re_split in_sep cur (c # cs) =
     (if in_sep \<and> is_space c then re_split True cur cs
      else if is_space c \<and> cur \<noteq> [] \<and> last cur \<in> set ''.!?''
      then cur # re_split True [] cs
      else re_split False (cur @ [c]) cs)"

text \<open>
  \<^verbatim>\<open>
  current_chunk = ""
  for sentence in sentences:
      if not sentence: continue
      if len(current_chunk) + len(sentence) + 1 > max_length and current_chunk:
          chunks.append(current_chunk.strip())
          current_chunk = sentence + " "
      else:
          current_chunk += sentence + " "
  if current_chunk:
      chunks.append(current_chunk.strip())
  return chunks
  \<close>
  The state of the loop is the pair of \<^verbatim>\<open>chunks\<close> and \<^verbatim>\<open>current_chunk\<close>.
\<close>

definition chunk_step :: "nat \<Rightarrow> string \<Rightarrow> string list \<times> string \<Rightarrow> string list \<times> string" where
  "chunk_step max_length sentence st =
     (let chunks = fst st; current_chunk = snd st
      in if sentence = [] then (chunks, current_chunk)
         else if length current_chunk + length sentence + 1 > max_length
                 \<and> current_chunk \<noteq> []
         then (chunks @ [strip current_chunk], sentence @ '' '')
         else (chunks, current_chunk @ sentence @ '' ''))"

definition split_into_chunks :: "string \<Rightarrow> nat \<Rightarrow> string list" where
  "split_into_chunks text max_length =
     (let sentences = re_split False [] (replace_char (CHR 0x0A) CHR '' '' text);
          st = fold (chunk_step max_length) sentences ([], [])
      in if snd st \<noteq> [] then fst st @ [strip (snd st)] else fst st)"

definition max_chunk_size :: nat where
  "max_chunk_size = 4000"

text \<open>
  The invariant of the loop of \<^verbatim>\<open>_split_into_chunks\<close> when no sentence is longer than
  \<open>max_length\<close>: every finished chunk is within the limit, and the current chunk is
  empty or a text within the limit followed by one space.
\<close>

definition chunk_inv :: "nat \<Rightarrow> string list \<times> string \<Rightarrow> bool" where
  "chunk_inv max_length st \<longleftrightarrow>
     (\<forall>c \<in> set (fst st). length c \<le> max_length)
     \<and> (snd st = [] \<or> (\<exists>t. snd st = t @ '' '' \<and> length t \<le> max_length))"

section \<open>Gathering preserves the order of submission\<close>

lemma length_fold_slots:
  "length (fold (\<lambda>i slots. slots[i := g i]) order slots) = length slots"
  by (induction order arbitrary: slots) auto

lemma nth_fold_slots:
  "j < length slots \<Longrightarrow>
   fold (\<lambda>i slots. slots[i := g i]) order slots ! j =
     (if j \<in> set order then g j else slots ! j)"
proof (induction order arbitrary: slots rule: rev_induct)
  case Nil
  then show ?case by simp
next
  case (snoc i order)
  then show ?case by (cases "i = j") (auto simp: length_fold_slots)
qed

lemma set_completion_order: "set (completion_order coros) = {0..<length coros}"
  by (simp add: completion_order_def)

lemma map_filter_Some: "List.map_filter (\<lambda>slot. slot) (map (\<lambda>x. Some (f x)) xs) = map f xs"
  by (induction xs) (simp_all add: List.map_filter_simps)

lemma gather_eq: "gather coros = map snd coros"
proof -
  let ?slots = "fold (\<lambda>i slots. slots[i := Some (snd (coros ! i))])
                  (completion_order coros) (replicate (length coros) None)"
  have "?slots = map (\<lambda>c. Some (snd c)) coros"
    by (rule nth_equalityI)
       (simp_all add: length_fold_slots nth_fold_slots set_completion_order)
  then show ?thesis
    by (simp add: gather_def map_filter_Some)
qed

section \<open>Properties of the confidence score\<close>

lemma calculate_relevance_score_bounds:
  "0 \<le> calculate_relevance_score text source \<and> calculate_relevance_score text source \<le> 1"
  by (simp add: calculate_relevance_score_def Let_def)

lemma extract_single_source_Some:
  assumes "extract_single_source env source = Some item"
  shows "\<exists>u text. source ''url'' = Some u \<and> scrape_web_content env u = Some text
           \<and> 100 < length text \<and> content item = text
           \<and> relevance_score item = Some (calculate_relevance_score text source)"
  using assms
  by (auto simp: extract_single_source_def split: option.splits if_splits)

lemma scrape_web_content_length:
  "scrape_web_content env u = Some text \<Longrightarrow> length text \<le> 5000"
  by (auto simp: scrape_web_content_def split: sum.splits if_splits)

lemma set_map_filter_id: "set (List.map_filter (\<lambda>r. r) xs) = {x. Some x \<in> set xs}"
  by (induction xs) (auto simp: List.map_filter_simps split: option.splits)

lemma extract_content_from_sources_set:
  "set (extract_content_from_sources env search_results) =
     {item. \<exists>source \<in> set (take max_sources search_results).
              extract_single_source env source = Some item}"
proof (cases "search_results = []")
  case True
  then show ?thesis by (simp add: extract_content_from_sources_def)
next
  case False
  have "Some item \<in> (\<lambda>source. extract_single_source env source) ` A
        \<longleftrightarrow> (\<exists>source \<in> A. extract_single_source env source = Some item)" for item A
    unfolding image_iff by (rule iffI) (erule bexE, rule bexI, erule sym, assumption)+
  with False show ?thesis
    by (simp add: extract_content_from_sources_def Let_def gather_eq set_map_filter_id
        comp_def)
qed

lemma extracted_relevance_nonneg:
  assumes "item \<in> set (extract_content_from_sources env search_results)"
  shows "0 \<le> get_relevance_score item"
proof -
  from assms obtain source where "extract_single_source env source = Some item"
    by (auto simp: extract_content_from_sources_set)
  then obtain page where "relevance_score item = Some (calculate_relevance_score page source)"
    using extract_single_source_Some by blast
  then show ?thesis
    using calculate_relevance_score_bounds [of page source]
    by (simp add: get_relevance_score_def)
qed

lemma calculate_confidence_score_bounds:
  assumes "\<And>item. item \<in> set extracted_content \<Longrightarrow> 0 \<le> get_relevance_score item"
  shows "0 \<le> calculate_confidence_score extracted_content srcs
         \<and> calculate_confidence_score extracted_content srcs \<le> 0.95"
proof (cases "extracted_content = []")
  case True
  then show ?thesis by (simp add: calculate_confidence_score_def)
next
  case False
  have "0 \<le> sum_list (map get_relevance_score extracted_content)"
    using assms by (intro sum_list_nonneg) auto
  then have "0 \<le> sum_list (map get_relevance_score extracted_content)
                    / real (length extracted_content)"
    by simp
  with False show ?thesis
    by (simp add: calculate_confidence_score_def Let_def min_def)
qed

lemma web_execute_task_confidence:
  "0 \<le> confidence_score (web_execute_task env task)
   \<and> confidence_score (web_execute_task env task) \<le> 0.95"
  using calculate_confidence_score_bounds [OF extracted_relevance_nonneg]
  by (simp add: web_execute_task_def Let_def)

lemma web_execute_task_status:
  "status (web_execute_task env task) =
     (if truthy (task ''query'') then ''completed'' else ''failed'')"
  by (simp add: web_execute_task_def Let_def)

lemma web_execute_task_failed:
  "\<not> truthy (task ''query'') \<Longrightarrow>
   confidence_score (web_execute_task env task) = 0 \<and> sources (web_execute_task env task) = []"
  by (simp add: web_execute_task_def Let_def)

lemma web_execute_task_ids:
  "task_id (web_execute_task env task) = web_researcher_id
   \<and> task_description (web_execute_task env task)
       = dict_get task ''description'' ''No description provided''"
  by (simp add: web_execute_task_def Let_def)

lemma source_term_eq:
  "min (real n * 0.2) 0.6 = min (0.2 * real (min n 3)) (0.6::real)"
proof (cases "n \<le> 3")
  case True
  then show ?thesis by (simp add: min_def mult.commute)
next
  case False
  then have "3 < real n" by simp
  with False show ?thesis by (simp add: min_def)
qed

text \<open>
  Claim C3. For every list of extracted items and every list of reliable-source URLs,
  \<open>calculate_confidence_score\<close> is the specification's formula: the source-count term
  \<open>min(0.2 * min(n, 3), 0.6)\<close> plus \<open>0.4\<close> times the mean relevance, capped at
  \<open>0.95\<close>, and \<open>0.0\<close> for an empty list of extracted items.
\<close>

theorem calculate_confidence_score_spec:
  "calculate_confidence_score extracted_content srcs = spec_confidence extracted_content srcs"
  unfolding calculate_confidence_score_def spec_confidence_def mean_def Let_def source_term_eq
  by (simp add: mult.commute)

section \<open>Results of the WebResearcher\<close>

text \<open>
  Claim C10. For every task and every environment, the result of
  \<^verbatim>\<open>WebResearcher.execute_task\<close> has status \<^verbatim>\<open>"completed"\<close> or \<^verbatim>\<open>"failed"\<close>, never
  \<^verbatim>\<open>"partial"\<close> or \<^verbatim>\<open>"unsupported"\<close>, and the status is \<^verbatim>\<open>"failed"\<close> exactly when
  the task has no truthy query.
\<close>

theorem web_execute_task_status_cases:
  "(status (web_execute_task env task) = ''completed''
      \<or> status (web_execute_task env task) = ''failed'')
   \<and> status (web_execute_task env task) \<noteq> ''partial''
   \<and> status (web_execute_task env task) \<noteq> ''unsupported''
   \<and> ((status (web_execute_task env task) = ''failed'') = (\<not> truthy (task ''query'')))"
  by (simp add: web_execute_task_status)

lemma sample_task_query: "truthy (sample_task ''query'')"
  by (simp add: sample_task_def truthy_def)

text \<open>
  Claim C2 as stated fails: the sample task has the identifier \<^verbatim>\<open>research_task_1\<close>,
  its execution by the \<^verbatim>\<open>WebResearcher\<close> succeeds directly, and the result does not
  carry that identifier.
\<close>

theorem task_id_round_trip_counterexample:
  "sample_task ''task_id'' = Some ''research_task_1''
   \<and> status (web_execute_task offline_env sample_task) = ''completed''
   \<and> task_id (web_execute_task offline_env sample_task) \<noteq> ''research_task_1''"
  using web_execute_task_ids [of offline_env sample_task]
  by (simp add: web_execute_task_status sample_task_query web_researcher_id_def)
     (simp add: sample_task_def)

lemma execute_single_task_raised:
  "execute_task a task = Inl e \<Longrightarrow>
   execute_single_task task a =
     Inr \<lparr>task_id = dict_get task ''task_id'' ''failed_task'',
          task_description = dict_get task ''description'' ''Failed task'',
          findings = ''Task failed with error: '' @ str_exn e,
          sources = [], confidence_score = 0, status = ''failed''\<rparr>"
  by (simp add: execute_single_task_def)

lemma execute_single_task_returned:
  "execute_task a task = Inr r \<Longrightarrow> execute_single_task task a = Inr r"
  by (simp add: execute_single_task_def)

text \<open>
  Claim C2, amended. A result that \<^verbatim>\<open>WebResearcher.execute_task\<close> returns carries the
  task's description (\<^verbatim>\<open>"No description provided"\<close> when the key is absent) and, as
  its \<^verbatim>\<open>task_id\<close>, the agent's own identifier \<^verbatim>\<open>"web_researcher"\<close>; the Supervisor
  passes such a result on unchanged. It is the synthetic failure result of the Supervisor
  that carries the task's own \<^verbatim>\<open>task_id\<close> (\<^verbatim>\<open>"failed_task"\<close> when absent) and its
  description (\<^verbatim>\<open>"Failed task"\<close> when absent).
\<close>

theorem task_result_identity:
  "task_id (web_execute_task env task) = ''web_researcher''
   \<and> task_description (web_execute_task env task)
       = dict_get task ''description'' ''No description provided''
   \<and> execute_single_task task (web_researcher env) = Inr (web_execute_task env task)
   \<and> (execute_task a task = Inl e \<longrightarrow>
        (\<exists>r. execute_single_task task a = Inr r
           \<and> task_id r = dict_get task ''task_id'' ''failed_task''
           \<and> task_description r = dict_get task ''description'' ''Failed task''))"
  using web_execute_task_ids [of env task]
  by (auto simp: web_researcher_id_def execute_single_task_raised
      execute_single_task_returned web_researcher_def)

text \<open>
  The amended claim at the sample task: the failing agent raises, and the synthetic
  result carries the task's identifier and description.
\<close>

theorem task_result_identity_witness:
  "execute_task failing_agent sample_task = Inl (Exception ''connection lost'')
   \<and> (\<exists>r. execute_single_task sample_task failing_agent = Inr r
         \<and> task_id r = ''research_task_1''
         \<and> task_description r = ''Research on solar power'')
   \<and> task_id (web_execute_task offline_env sample_task) = ''web_researcher''
   \<and> task_description (web_execute_task offline_env sample_task) = ''Research on solar power''"
  using task_result_identity [of offline_env sample_task failing_agent "Exception ''connection lost''"]
  by (simp add: failing_agent_def dict_get_def sample_task_def)

text \<open>
  Claim C4. Whether the execution of a task returns what the \<^verbatim>\<open>WebResearcher\<close> computes
  or raises, so that the Supervisor builds its synthetic failure result, the result has
  a confidence score within \<open>[0, 1]\<close>, and a result of status \<^verbatim>\<open>"failed"\<close> has the
  confidence score \<open>0\<close> and no sources.
\<close>

theorem worker_result_invariant:
  assumes "execute_task a task = Inr (web_execute_task env task) \<or> execute_task a task = Inl e"
  shows "\<exists>r. execute_single_task task a = Inr r
           \<and> 0 \<le> confidence_score r \<and> confidence_score r \<le> 1
           \<and> (status r = ''failed'' \<longrightarrow> confidence_score r = 0 \<and> sources r = [])"
  using assms
proof
  assume direct: "execute_task a task = Inr (web_execute_task env task)"
  have "confidence_score (web_execute_task env task) \<le> 1"
    using web_execute_task_confidence [of env task] by simp
  moreover have "status (web_execute_task env task) = ''failed'' \<longrightarrow>
      confidence_score (web_execute_task env task) = 0 \<and> sources (web_execute_task env task) = []"
    using web_execute_task_failed [of task env] by (simp add: web_execute_task_status)
  ultimately show ?thesis
    using web_execute_task_confidence [of env task] direct
    by (simp add: execute_single_task_returned)
next
  assume "execute_task a task = Inl e"
  then show ?thesis by (simp add: execute_single_task_raised)
qed

text \<open>
  Claim C4 at a task without a query, executed by the \<^verbatim>\<open>WebResearcher\<close>: the result
  is a failure with confidence \<open>0\<close> and no sources.
\<close>

theorem worker_result_invariant_witness:
  "execute_task (web_researcher offline_env) Map.empty
      = Inr (web_execute_task offline_env Map.empty)
   \<and> (\<exists>r. execute_single_task Map.empty (web_researcher offline_env) = Inr r
         \<and> status r = ''failed'' \<and> confidence_score r = 0 \<and> sources r = [])"
  using worker_result_invariant [of "web_researcher offline_env" Map.empty offline_env]
  by (simp add: web_researcher_def execute_single_task_def web_execute_task_def truthy_def)

section \<open>Search fallback and content extraction\<close>

lemma simulate_search_results_length: "length (simulate_search_results query) = 2"
  by (simp add: simulate_search_results_def)

lemma simulate_search_results_entries:
  "simulate_search_results query =
     [map_of
        [(''title'', ''Research on '' @ query),
         (''url'', ''https://example.com/research/''
                     @ map (\<lambda>c. if c = CHR '' '' then CHR ''-'' else c) query),
         (''snippet'', ''Comprehensive information about '' @ query),
         (''domain'', ''example.com''),
         (''source'', ''simulated'')],
      map_of
        [(''title'', query @ '' - Academic Study''),
         (''url'', ''https://academic.edu/study/''
                     @ map (\<lambda>c. if c = CHR '' '' then CHR ''_'' else c) query),
         (''snippet'', ''Academic research on '' @ query),
         (''domain'', ''academic.edu''),
         (''source'', ''simulated'')]]"
  unfolding simulate_search_results_def replace_char_def by (rule refl)

lemma perform_web_search_cases:
  "perform_web_search env query =
     (if truthy (google_api_key env) \<and> truthy (google_search_engine_id env)
      then (case call_google_search_api env query of
              Inl e \<Rightarrow> simulate_search_results query
            | Inr rs \<Rightarrow> if rs = [] then simulate_search_results query else rs)
      else simulate_search_results query)"
  by (simp add: perform_web_search_def Let_def split: sum.splits)

text \<open>
  Claim C7. \<^verbatim>\<open>perform_web_search\<close> never returns an empty list. When a credential is
  missing, when the call of the search provider raises, and when it yields no result,
  the function returns the placeholder set of \<^verbatim>\<open>simulate_search_results\<close>: exactly two
  entries, whose title, URL and snippet are built from the query (in the URL every
  space of the query is replaced, by \<^verbatim>\<open>-\<close> in the first entry and by \<^verbatim>\<open>_\<close> in the
  second), with the domains \<^verbatim>\<open>example.com\<close> and \<^verbatim>\<open>academic.edu\<close> and the source
  \<^verbatim>\<open>simulated\<close>. When the provider yields results, these are returned.
\<close>

theorem perform_web_search_fallback:
  "perform_web_search env query \<noteq> []
   \<and> length (simulate_search_results query) = 2
   \<and> (\<not> (truthy (google_api_key env) \<and> truthy (google_search_engine_id env))
        \<or> call_google_search_api env query = Inl e
        \<or> call_google_search_api env query = Inr []
      \<longrightarrow> perform_web_search env query = simulate_search_results query
          \<and> perform_web_search env query =
              [map_of
                 [(''title'', ''Research on '' @ query),
                  (''url'', ''https://example.com/research/''
                              @ map (\<lambda>c. if c = CHR '' '' then CHR ''-'' else c) query),
                  (''snippet'', ''Comprehensive information about '' @ query),
                  (''domain'', ''example.com''),
                  (''source'', ''simulated'')],
               map_of
                 [(''title'', query @ '' - Academic Study''),
                  (''url'', ''https://academic.edu/study/''
                              @ map (\<lambda>c. if c = CHR '' '' then CHR ''_'' else c) query),
                  (''snippet'', ''Academic research on '' @ query),
                  (''domain'', ''academic.edu''),
                  (''source'', ''simulated'')]])
   \<and> (truthy (google_api_key env) \<and> truthy (google_search_engine_id env)
        \<and> call_google_search_api env query = Inr rs \<and> rs \<noteq> []
      \<longrightarrow> perform_web_search env query = rs)"
proof -
  have ne: "simulate_search_results query \<noteq> []"
    using simulate_search_results_length [of query] by auto
  have fallback: "perform_web_search env query = simulate_search_results query"
    if "\<not> (truthy (google_api_key env) \<and> truthy (google_search_engine_id env))
        \<or> call_google_search_api env query = Inl e
        \<or> call_google_search_api env query = Inr []"
    using that by (auto simp: perform_web_search_cases)
  have provider: "perform_web_search env query = rs"
    if "truthy (google_api_key env) \<and> truthy (google_search_engine_id env)
        \<and> call_google_search_api env query = Inr rs \<and> rs \<noteq> []"
    using that by (simp add: perform_web_search_cases)
  have "perform_web_search env query \<noteq> []"
    using ne by (simp add: perform_web_search_cases split: sum.splits)
  then show ?thesis
    using fallback provider simulate_search_results_length [of query]
      simulate_search_results_entries [of query]
    by metis
qed

text \<open>
  Claim C7 in the offline environment, which has no credentials, for the query
  \<^verbatim>\<open>solar power\<close>.
\<close>

theorem perform_web_search_fallback_witness:
  "\<not> (truthy (google_api_key offline_env) \<and> truthy (google_search_engine_id offline_env))
   \<and> length (perform_web_search offline_env ''solar power'') = 2
   \<and> perform_web_search offline_env ''solar power'' =
       [map_of
          [(''title'', ''Research on solar power''),
           (''url'', ''https://example.com/research/solar-power''),
           (''snippet'', ''Comprehensive information about solar power''),
           (''domain'', ''example.com''),
           (''source'', ''simulated'')],
        map_of
          [(''title'', ''solar power - Academic Study''),
           (''url'', ''https://academic.edu/study/solar_power''),
           (''snippet'', ''Academic research on solar power''),
           (''domain'', ''academic.edu''),
           (''source'', ''simulated'')]]"
proof -
  have h: "\<not> (truthy (google_api_key offline_env) \<and> truthy (google_search_engine_id offline_env))"
    by (simp add: offline_env_def truthy_def)
  from perform_web_search_fallback [of offline_env "''solar power''"] h
  have "perform_web_search offline_env ''solar power'' =
       [map_of
          [(''title'', ''Research on '' @ ''solar power''),
           (''url'', ''https://example.com/research/''
                       @ map (\<lambda>c. if c = CHR '' '' then CHR ''-'' else c) ''solar power''),
           (''snippet'', ''Comprehensive information about '' @ ''solar power''),
           (''domain'', ''example.com''),
           (''source'', ''simulated'')],
        map_of
          [(''title'', ''solar power'' @ '' - Academic Study''),
           (''url'', ''https://academic.edu/study/''
                       @ map (\<lambda>c. if c = CHR '' '' then CHR ''_'' else c) ''solar power''),
           (''snippet'', ''Academic research on '' @ ''solar power''),
           (''domain'', ''academic.edu''),
           (''source'', ''simulated'')]]"
    by blast
  then have "perform_web_search offline_env ''solar power'' =
       [map_of
          [(''title'', ''Research on solar power''),
           (''url'', ''https://example.com/research/solar-power''),
           (''snippet'', ''Comprehensive information about solar power''),
           (''domain'', ''example.com''),
           (''source'', ''simulated'')],
        map_of
          [(''title'', ''solar power - Academic Study''),
           (''url'', ''https://academic.edu/study/solar_power''),
           (''snippet'', ''Academic research on solar power''),
           (''domain'', ''academic.edu''),
           (''source'', ''simulated'')]]"
    by simp
  with h show ?thesis by simp
qed

lemma sample_source_keys:
  "sample_source ''url'' = Some ''https://example.com/research/solar-power''
   \<and> sample_source ''title'' = Some ''Research on solar power''
   \<and> sample_source ''domain'' = Some ''example.com''"
  by (simp add: sample_source_def)

lemma page_env_fields:
  "http_get (page_env page) u = Inr (200, page)
   \<and> clean_extracted_content (page_env page) = (\<lambda>text. text)"
  by (simp add: page_env_def offline_env_def)

text \<open>
  Claim C8 as stated fails: a page whose cleaned content has exactly 100 characters is
  fetched without an error and is dropped all the same.
\<close>

theorem extraction_threshold_counterexample:
  "http_get (page_env (replicate 100 CHR ''a'')) ''https://example.com/research/solar-power''
     = Inr (200, replicate 100 CHR ''a'')
   \<and> length (clean_extracted_content (page_env (replicate 100 CHR ''a''))
               (replicate 100 CHR ''a'')) = 100
   \<and> extract_single_source (page_env (replicate 100 CHR ''a'')) sample_source = None"
  by (simp add: page_env_fields extract_single_source_def scrape_web_content_def
      sample_source_keys)

lemma extract_single_source_eq:
  assumes "source ''url'' = Some u" "source ''title'' = Some t" "source ''domain'' = Some d"
  shows "extract_single_source env source =
           (case http_get env u of
              Inl e \<Rightarrow> None
            | Inr (code, page) \<Rightarrow>
                if code = 200 \<and> 100 < length (clean_extracted_content env page)
                then Some \<lparr>url = u, title = t, domain = d,
                           content = take 5000 (clean_extracted_content env page),
                           snippet = dict_get source ''snippet'' [],
                           relevance_score = Some (calculate_relevance_score
                             (take 5000 (clean_extracted_content env page)) source)\<rparr>
                else None)"
proof (cases "http_get env u")
  case (Inl e)
  then show ?thesis
    using assms by (simp add: extract_single_source_def scrape_web_content_def)
next
  case (Inr resp)
  obtain code page where resp: "resp = (code, page)" by (cases resp)
  have len: "100 < length (take 5000 xs) \<longleftrightarrow> 100 < length xs" for xs :: string
    by auto
  have ne: "100 < length xs \<Longrightarrow> take 5000 xs \<noteq> []" for xs :: string
    by auto
  show ?thesis
    using assms Inr resp
    by (simp add: extract_single_source_def scrape_web_content_def len ne)
qed

lemma extract_single_source_retained:
  assumes "source ''url'' = Some u" "source ''title'' = Some t" "source ''domain'' = Some d"
  shows "(extract_single_source env source \<noteq> None) =
           (\<exists>page. http_get env u = Inr (200, page)
              \<and> 100 < length (clean_extracted_content env page))"
proof (cases "http_get env u")
  case (Inl e)
  then show ?thesis by (simp add: extract_single_source_eq [OF assms])
next
  case (Inr resp)
  obtain code page where "resp = (code, page)" by (cases resp)
  with Inr show ?thesis by (simp add: extract_single_source_eq [OF assms])
qed

lemma extract_single_source_content:
  assumes "source ''url'' = Some u" "source ''title'' = Some t" "source ''domain'' = Some d"
    and "extract_single_source env source = Some item"
  shows "\<exists>page. http_get env u = Inr (200, page)
           \<and> content item = take 5000 (clean_extracted_content env page)"
proof (cases "http_get env u")
  case (Inl e)
  then show ?thesis
    using assms(4) by (simp add: extract_single_source_eq [OF assms(1-3)])
next
  case (Inr resp)
  obtain code page where "resp = (code, page)" by (cases resp)
  with Inr show ?thesis
    using assms(4) by (auto simp: extract_single_source_eq [OF assms(1-3)] split: if_splits)
qed

lemma extracted_content_length:
  assumes "x \<in> set (extract_content_from_sources env search_results)"
  shows "100 < length (content x) \<and> length (content x) \<le> 5000"
proof -
  from assms obtain src where "extract_single_source env src = Some x"
    by (auto simp: extract_content_from_sources_set)
  then obtain v page where "scrape_web_content env v = Some page"
    "100 < length page" "content x = page"
    using extract_single_source_Some by blast
  then show ?thesis
    using scrape_web_content_length by auto
qed

text \<open>
  Claim C8, amended. A search result with its \<^verbatim>\<open>url\<close>, \<^verbatim>\<open>title\<close> and \<^verbatim>\<open>domain\<close> is
  retained exactly when its fetch answers with status 200 and the cleaned content has
  more than 100 characters (\<^verbatim>\<open>len(content) > 100\<close>); the content of a retained item is
  the cleaned content cut to its first 5000 characters, and every item of
  \<^verbatim>\<open>extract_content_from_sources\<close> has a content of more than 100 and at most 5000
  characters.
\<close>

theorem extraction_retains_long_pages:
  assumes "source ''url'' = Some u" "source ''title'' = Some t" "source ''domain'' = Some d"
  shows "((extract_single_source env source \<noteq> None) =
            (\<exists>page. http_get env u = Inr (200, page)
               \<and> 100 < length (clean_extracted_content env page)))
         \<and> (extract_single_source env source = Some item \<longrightarrow>
              (\<exists>page. http_get env u = Inr (200, page)
                 \<and> content item = take 5000 (clean_extracted_content env page)))
         \<and> (\<forall>x \<in> set (extract_content_from_sources env search_results).
              100 < length (content x) \<and> length (content x) \<le> 5000)"
  using extract_single_source_retained [OF assms, of env]
    extract_single_source_content [OF assms, of env item]
    extracted_content_length [of _ env search_results]
  by blast

text \<open>
  The amended claim at a page of 101 characters: the sample source is retained.
\<close>

theorem extraction_retains_long_pages_witness:
  "sample_source ''url'' = Some ''https://example.com/research/solar-power''
   \<and> sample_source ''title'' = Some ''Research on solar power''
   \<and> sample_source ''domain'' = Some ''example.com''
   \<and> http_get (page_env (replicate 101 CHR ''a'')) ''https://example.com/research/solar-power''
        = Inr (200, replicate 101 CHR ''a'')
   \<and> extract_single_source (page_env (replicate 101 CHR ''a'')) sample_source \<noteq> None"
proof -
  have keys: "sample_source ''url'' = Some ''https://example.com/research/solar-power''"
    "sample_source ''title'' = Some ''Research on solar power''"
    "sample_source ''domain'' = Some ''example.com''"
    by (simp_all add: sample_source_keys)
  show ?thesis
    using extraction_retains_long_pages [OF keys, of "page_env (replicate 101 CHR ''a'')"]
    by (simp add: keys page_env_fields)
qed

section \<open>Execution of a group of tasks\<close>

lemma execute_single_task_Inr: "\<exists>r. execute_single_task task a = Inr r"
  by (cases "execute_task a task") (simp_all add: execute_single_task_def)

lemma task_assignments_outcomes:
  "map snd (task_assignments exec_time agents i tasks) =
     map (\<lambda>(j, task). execute_single_task task (agents ! (j mod length agents)))
       (enumerate i tasks)"
  by (induction tasks arbitrary: i) simp_all

lemma map_filter_all_Inr:
  assumes "\<And>x. x \<in> set xs \<Longrightarrow> \<exists>r. x = Inr r"
  shows "map Inr (List.map_filter (\<lambda>result. case result of Inr r \<Rightarrow> Some r | Inl e \<Rightarrow> None) xs)
           = xs"
  using assms
proof (induction xs)
  case Nil
  then show ?case by (simp add: List.map_filter_simps)
next
  case (Cons x xs)
  then obtain r where "x = Inr r" by auto
  with Cons show ?case by (simp add: List.map_filter_simps)
qed

lemma execute_tasks_parallel_outcomes:
  assumes "agents \<noteq> []"
  shows "map Inr (execute_tasks_parallel exec_time tasks agents) =
           map (\<lambda>(i, task). execute_single_task task (agents ! (i mod length agents)))
             (enumerate 0 tasks)"
proof (cases "tasks = []")
  case True
  then show ?thesis by (simp add: execute_tasks_parallel_def)
next
  case False
  let ?outcomes = "map (\<lambda>(i, task). execute_single_task task (agents ! (i mod length agents)))
                     (enumerate 0 tasks)"
  have "\<exists>r. x = Inr r" if "x \<in> set ?outcomes" for x
    using that execute_single_task_Inr by auto
  then have "map Inr (List.map_filter
                (\<lambda>result. case result of Inr r \<Rightarrow> Some r | Inl e \<Rightarrow> None) ?outcomes)
             = ?outcomes"
    by (rule map_filter_all_Inr)
  with False assms show ?thesis
    by (simp add: execute_tasks_parallel_def gather_eq task_assignments_outcomes)
qed

lemma length_execute_tasks_parallel:
  "agents \<noteq> [] \<Longrightarrow> length (execute_tasks_parallel exec_time tasks agents) = length tasks"
  using arg_cong [OF execute_tasks_parallel_outcomes, of agents length exec_time tasks]
  by simp

text \<open>
  Claim C5. Within a group run by \<^verbatim>\<open>execute_tasks_parallel\<close> with a non-empty list of
  agents, the task at index \<open>i\<close> is executed by \<^verbatim>\<open>agents[i % len(agents)]\<close>, and the
  result at position \<open>i\<close> of the output is the result of that execution, whatever the
  times at which the executions complete.
\<close>

theorem round_robin_submission_order:
  assumes "agents \<noteq> []"
  shows "map Inr (execute_tasks_parallel exec_time tasks agents) =
           map (\<lambda>(i, task). execute_single_task task (agents ! (i mod length agents)))
             (enumerate 0 tasks)"
  using assms by (rule execute_tasks_parallel_outcomes)

lemma reversed_completion:
  "completion_order
     (task_assignments (\<lambda>i task. 10 - i) [web_researcher offline_env, failing_agent] 0
        [sample_task, Map.empty, sample_task]) = [2, 1, 0]"
  by (simp add: completion_order_def upt_rec numeral_eq_Suc)

text \<open>
  Claim C5 with two agents and three tasks that complete in the reverse of the order of
  their submission.
\<close>

theorem round_robin_submission_order_witness:
  "[web_researcher offline_env, failing_agent] \<noteq> []
   \<and> completion_order
         (task_assignments (\<lambda>i task. 10 - i) [web_researcher offline_env, failing_agent] 0
            [sample_task, Map.empty, sample_task]) = [2, 1, 0]
   \<and> map Inr (execute_tasks_parallel (\<lambda>i task. 10 - i) [sample_task, Map.empty, sample_task]
               [web_researcher offline_env, failing_agent])
     = [execute_single_task sample_task (web_researcher offline_env),
        execute_single_task Map.empty failing_agent,
        execute_single_task sample_task (web_researcher offline_env)]"
  using round_robin_submission_order
    [of "[web_researcher offline_env, failing_agent]" "\<lambda>i task. 10 - i"
        "[sample_task, Map.empty, sample_task]"]
    reversed_completion
  by simp

section \<open>Delegation\<close>

lemma length_fold_delegate_step:
  "length (fold (delegate_step self exec_time) task_groups acc) =
     length acc + group_count self task_groups"
proof (induction task_groups arbitrary: acc)
  case Nil
  then show ?case by (simp add: group_count_def)
next
  case (Cons grp task_groups)
  then show ?case
    by (simp add: group_count_def delegate_step_def Let_def length_execute_tasks_parallel)
qed

lemma group_count_append_task:
  "group_count self
     (map (\<lambda>(k, task_list). if k = ty then (k, task_list @ [task]) else (k, task_list)) gs) =
   group_count self gs
     + (if capable_agents self ty \<noteq> [] then length (filter (\<lambda>grp. fst grp = ty) gs) else 0)"
  by (induction gs) (auto simp: group_count_def)

lemma keys_append_task:
  "map fst (map (\<lambda>(k, task_list). if k = ty then (k, task_list @ [task]) else (k, task_list)) gs)
     = map fst gs"
  by (induction gs) auto

lemma distinct_key_once:
  "distinct (map fst gs) \<Longrightarrow> ty \<in> fst ` set gs \<Longrightarrow>
   length (filter (\<lambda>grp. fst grp = ty) gs) = 1"
proof (induction gs)
  case Nil
  then show ?case by simp
next
  case (Cons g gs)
  show ?case
  proof (cases "fst g = ty")
    case True
    with Cons.prems have "ty \<notin> fst ` set gs" by auto
    then have "filter (\<lambda>grp. fst grp = ty) gs = []"
      by (auto simp: filter_empty_conv)
    with True show ?thesis by simp
  next
    case False
    with Cons show ?thesis by auto
  qed
qed

lemma absent_key_never:
  "ty \<notin> fst ` set gs \<Longrightarrow> filter (\<lambda>grp. fst grp = ty) gs = []"
  by (auto simp: filter_empty_conv)

lemma group_step_invariant:
  assumes "distinct (map fst gs)"
  shows "distinct (map fst (group_step task gs))
         \<and> group_count self (group_step task gs) =
             group_count self gs
               + (if capable_agents self (dict_get task ''type'' ''unknown'') \<noteq> [] then 1 else 0)"
proof -
  define ty where "ty = dict_get task ''type'' ''unknown''"
  define upd :: "string \<times> dict list \<Rightarrow> string \<times> dict list"
    where "upd = (\<lambda>(k, task_list). if k = ty then (k, task_list @ [task]) else (k, task_list))"
  have keys: "map fst (map upd xs) = map fst xs" for xs
    unfolding upd_def by (rule keys_append_task)
  have count: "group_count self (map upd xs) =
      group_count self xs
        + (if capable_agents self ty \<noteq> [] then length (filter (\<lambda>grp. fst grp = ty) xs) else 0)"
    for xs
    unfolding upd_def by (rule group_count_append_task)
  show ?thesis
  proof (cases "map_of gs ty = None")
    case True
    then have absent: "ty \<notin> fst ` set gs"
      by (simp add: map_of_eq_None_iff)
    have step: "group_step task gs = map upd (gs @ [(ty, [])])"
      using True by (simp add: group_step_def Let_def upd_def ty_def)
    have "distinct (map fst (gs @ [(ty, [])]))"
      using assms absent by simp
    moreover have "group_count self (gs @ [(ty, [])]) = group_count self gs"
      by (simp add: group_count_def)
    moreover have "length (filter (\<lambda>grp. fst grp = ty) (gs @ [(ty, [])])) = 1"
      using absent_key_never [OF absent] by simp
    ultimately show ?thesis
      unfolding step keys count ty_def [symmetric] by simp
  next
    case False
    then have present: "ty \<in> fst ` set gs"
      by (simp add: map_of_eq_None_iff)
    have step: "group_step task gs = map upd gs"
      using False by (simp add: group_step_def Let_def upd_def ty_def)
    show ?thesis
      unfolding step keys count ty_def [symmetric]
      using assms distinct_key_once [OF assms present] by simp
  qed
qed

lemma fold_group_step_invariant:
  assumes "distinct (map fst gs)"
  shows "distinct (map fst (fold group_step tasks gs))
         \<and> group_count self (fold group_step tasks gs) =
             group_count self gs
               + length (filter (\<lambda>task. capable_agents self (dict_get task ''type'' ''unknown'')
                                   \<noteq> []) tasks)"
  using assms
proof (induction tasks arbitrary: gs)
  case Nil
  then show ?case by simp
next
  case (Cons task tasks)
  from group_step_invariant [OF Cons.prems, of task self]
  have d: "distinct (map fst (group_step task gs))"
    and c: "group_count self (group_step task gs) =
             group_count self gs
               + (if capable_agents self (dict_get task ''type'' ''unknown'') \<noteq> [] then 1 else 0)"
    by simp_all
  from Cons.IH [OF d] c show ?case by simp
qed

lemma capable_agents_nonempty:
  "capable_agents self task_type \<noteq> [] \<longleftrightarrow> list_ex (\<lambda>a. can_handle_task a task_type) (sub_agents self)"
  by (auto simp: capable_agents_def filter_empty_conv list_ex_iff)

lemma length_delegate_tasks:
  "length (delegate_tasks self exec_time tasks) =
     length (filter (\<lambda>task. list_ex (\<lambda>a. can_handle_task a (dict_get task ''type'' ''unknown''))
                              (sub_agents self)) tasks)"
proof (cases "tasks = []")
  case True
  then show ?thesis by (simp add: delegate_tasks_def)
next
  case False
  have "group_count self (group_tasks_by_type tasks) =
          length (filter (\<lambda>task. capable_agents self (dict_get task ''type'' ''unknown'') \<noteq> [])
                    tasks)"
    using fold_group_step_invariant [of "[]" tasks self]
    by (simp add: group_tasks_by_type_def group_count_def)
  with False show ?thesis
    by (simp add: delegate_tasks_def length_fold_delegate_step capable_agents_nonempty)
qed


lemma group_step_members:
  assumes "(k, ts) \<in> set (group_step task gs)" "t \<in> set ts"
  shows "(t = task \<and> k = dict_get task ''type'' ''unknown'')
         \<or> (\<exists>ts0. (k, ts0) \<in> set gs \<and> t \<in> set ts0)"
  using assms
  by (auto simp: group_step_def Let_def split: if_splits)

lemma fold_group_step_members:
  assumes "(k, ts) \<in> set (fold group_step tasks gs)" "t \<in> set ts"
  shows "(t \<in> set tasks \<and> k = dict_get t ''type'' ''unknown'')
         \<or> (\<exists>ts0. (k, ts0) \<in> set gs \<and> t \<in> set ts0)"
  using assms
proof (induction tasks arbitrary: gs)
  case Nil
  then show ?case by auto
next
  case (Cons task tasks)
  from Cons.prems have "(k, ts) \<in> set (fold group_step tasks (group_step task gs))"
    by simp
  from Cons.IH [OF this Cons.prems(2)]
  show ?case
  proof
    assume "t \<in> set tasks \<and> k = dict_get t ''type'' ''unknown''"
    then show ?thesis by simp
  next
    assume "\<exists>ts0. (k, ts0) \<in> set (group_step task gs) \<and> t \<in> set ts0"
    then obtain ts0 where "(k, ts0) \<in> set (group_step task gs)" "t \<in> set ts0"
      by blast
    from group_step_members [OF this] show ?thesis by auto
  qed
qed

lemma group_tasks_by_type_members:
  assumes "(k, ts) \<in> set (group_tasks_by_type tasks)" "t \<in> set ts"
  shows "t \<in> set tasks \<and> k = dict_get t ''type'' ''unknown''"
  using fold_group_step_members [of k ts tasks "[]" t] assms
  by (simp add: group_tasks_by_type_def)

lemma execute_tasks_parallel_members:
  assumes "r \<in> set (execute_tasks_parallel exec_time tasks agents)"
  shows "\<exists>task \<in> set tasks. \<exists>a \<in> set agents. execute_single_task task a = Inr r"
proof -
  from assms have ne: "agents \<noteq> []"
    by (auto simp: execute_tasks_parallel_def)
  from assms have "Inr r \<in> set (map Inr (execute_tasks_parallel exec_time tasks agents))"
    by simp
  also have "map Inr (execute_tasks_parallel exec_time tasks agents) =
      map (\<lambda>(i, task). execute_single_task task (agents ! (i mod length agents)))
        (enumerate 0 tasks)"
    by (rule execute_tasks_parallel_outcomes [OF ne])
  finally have "Inr r \<in> set (map (\<lambda>(i, task).
                 execute_single_task task (agents ! (i mod length agents)))
               (enumerate 0 tasks))" .
  then obtain i task where it: "(i, task) \<in> set (enumerate 0 tasks)"
    and r: "execute_single_task task (agents ! (i mod length agents)) = Inr r"
    by auto
  from it have "task \<in> set tasks"
    by (auto simp: in_set_enumerate_eq)
  moreover from ne have "agents ! (i mod length agents) \<in> set agents"
    by simp
  ultimately show ?thesis using r by blast
qed

lemma fold_delegate_step_members:
  assumes "r \<in> set (fold (delegate_step self exec_time) task_groups acc)"
  shows "r \<in> set acc
         \<or> (\<exists>grp \<in> set task_groups. \<exists>task \<in> set (snd grp).
               \<exists>a \<in> set (capable_agents self (fst grp)). execute_single_task task a = Inr r)"
  using assms
proof (induction task_groups arbitrary: acc)
  case Nil
  then show ?case by simp
next
  case (Cons grp task_groups)
  from Cons.prems
  have "r \<in> set (fold (delegate_step self exec_time) task_groups
                    (delegate_step self exec_time grp acc))"
    by simp
  from Cons.IH [OF this] show ?case
  proof
    assume "r \<in> set (delegate_step self exec_time grp acc)"
    then have "r \<in> set acc
               \<or> r \<in> set (execute_tasks_parallel exec_time (snd grp)
                             (capable_agents self (fst grp)))"
      by (auto simp: delegate_step_def Let_def split: if_splits)
    then show ?thesis
      using execute_tasks_parallel_members by fastforce
  next
    assume "\<exists>grp \<in> set task_groups. \<exists>task \<in> set (snd grp).
               \<exists>a \<in> set (capable_agents self (fst grp)). execute_single_task task a = Inr r"
    then show ?thesis by auto
  qed
qed

lemma delegate_tasks_members:
  assumes "r \<in> set (delegate_tasks self exec_time tasks)"
  shows "\<exists>task \<in> set tasks. \<exists>a \<in> set (sub_agents self).
           can_handle_task a (dict_get task ''type'' ''unknown'')
           \<and> execute_single_task task a = Inr r"
proof -
  from assms have "r \<in> set (fold (delegate_step self exec_time) (group_tasks_by_type tasks) [])"
    by (auto simp: delegate_tasks_def split: if_splits)
  from fold_delegate_step_members [OF this]
  obtain grp task a where grp: "grp \<in> set (group_tasks_by_type tasks)"
    and task: "task \<in> set (snd grp)"
    and a: "a \<in> set (capable_agents self (fst grp))"
    and r: "execute_single_task task a = Inr r"
    by auto
  from grp have "(fst grp, snd grp) \<in> set (group_tasks_by_type tasks)" by simp
  from group_tasks_by_type_members [OF this task]
  have "task \<in> set tasks" "fst grp = dict_get task ''type'' ''unknown''" by simp_all
  moreover from a have "a \<in> set (sub_agents self)" "can_handle_task a (fst grp)"
    by (simp_all add: capable_agents_def)
  ultimately show ?thesis using r by auto
qed

lemma execute_single_task_result:
  "execute_single_task task a =
     Inr (case execute_task a task of
            Inr r \<Rightarrow> r
          | Inl e \<Rightarrow>
              \<lparr>task_id = dict_get task ''task_id'' ''failed_task'',
               task_description = dict_get task ''description'' ''Failed task'',
               findings = ''Task failed with error: '' @ str_exn e,
               sources = [], confidence_score = 0, status = ''failed''\<rparr>)"
  by (cases "execute_task a task") (simp_all add: execute_single_task_def)

lemma execute_tasks_parallel_results:
  assumes f: "\<And>task a. execute_single_task task a = Inr (f task a)"
    and ne: "agents \<noteq> []"
  shows "execute_tasks_parallel exec_time tasks agents =
           map (\<lambda>(i, task). f task (agents ! (i mod length agents))) (enumerate 0 tasks)"
proof -
  have "map Inr (execute_tasks_parallel exec_time tasks agents) =
          map (\<lambda>(i, task). execute_single_task task (agents ! (i mod length agents)))
            (enumerate 0 tasks)"
    using ne by (rule execute_tasks_parallel_outcomes)
  also have "\<dots> = map Inr (map (\<lambda>(i, task). f task (agents ! (i mod length agents)))
                           (enumerate 0 tasks))"
    by (simp add: f split_def)
  finally show ?thesis
    by (rule map_injective) (rule inj_Inr)
qed

lemma fold_delegate_step_results:
  assumes f: "\<And>task a. execute_single_task task a = Inr (f task a)"
  shows "fold (delegate_step self exec_time) task_groups acc =
           acc @ map (\<lambda>(task, a). f task a) (assignments self task_groups)"
proof (induction task_groups arbitrary: acc)
  case Nil
  then show ?case by (simp add: assignments_def)
next
  case (Cons grp task_groups)
  have step: "delegate_step self exec_time grp acc =
                acc @ map (\<lambda>(task, a). f task a) (assignments self [grp])"
    by (simp add: delegate_step_def assignments_def Let_def
        execute_tasks_parallel_results [of f, OF f] split_def comp_def)
  have app: "assignments self (grp # task_groups) =
               assignments self [grp] @ assignments self task_groups"
    by (simp add: assignments_def)
  show ?case
    by (simp add: Cons.IH step app)
qed

lemma map_fst_assignments: "map fst (assignments self task_groups) = covered_tasks self task_groups"
proof -
  have "map fst (map (\<lambda>(i, task). (task, g i)) (enumerate 0 ts)) = ts" for g :: "nat \<Rightarrow> agent" and ts :: "dict list"
    by (simp add: split_def comp_def)
  then show ?thesis
    by (induction task_groups) (simp_all add: assignments_def covered_tasks_def Let_def)
qed

lemma assignments_members:
  assumes "(task, a) \<in> set (assignments self task_groups)"
  shows "\<exists>grp \<in> set task_groups. task \<in> set (snd grp) \<and> a \<in> set (capable_agents self (fst grp))"
proof -
  define F :: "string \<times> dict list \<Rightarrow> (dict \<times> agent) list"
    where "F = (\<lambda>grp. let agents = capable_agents self (fst grp)
                         in if agents \<noteq> []
                            then map (\<lambda>(i, task). (task, agents ! (i mod length agents)))
                                   (enumerate 0 (snd grp))
                            else [])"
  from assms have "(task, a) \<in> set (concat (map F task_groups))"
    by (simp add: assignments_def F_def)
  then obtain grp where grp: "grp \<in> set task_groups" and m: "(task, a) \<in> set (F grp)"
    by auto
  define agents where "agents = capable_agents self (fst grp)"
  from m have ne: "agents \<noteq> []"
    by (auto simp: F_def agents_def Let_def split: if_splits)
  with m have "(task, a) \<in> set (map (\<lambda>(i, task). (task, agents ! (i mod length agents)))
                                  (enumerate 0 (snd grp)))"
    by (simp add: F_def agents_def Let_def)
  then obtain i where i: "(i, task) \<in> set (enumerate 0 (snd grp))"
    and a: "a = agents ! (i mod length agents)"
    by auto
  from i have "task \<in> set (snd grp)"
    by (auto simp: in_set_enumerate_eq)
  moreover from ne a have "a \<in> set agents"
    by simp
  ultimately show ?thesis using grp by (auto simp: agents_def)
qed

lemma covered_tasks_append_task:
  "mset (covered_tasks self
     (map (\<lambda>(k, task_list). if k = ty then (k, task_list @ [task]) else (k, task_list)) gs)) =
   mset (covered_tasks self gs)
     + (if capable_agents self ty \<noteq> []
        then replicate_mset (length (filter (\<lambda>grp. fst grp = ty) gs)) task else {#})"
  by (induction gs) (auto simp: covered_tasks_def)

lemma group_step_covered_tasks:
  assumes "distinct (map fst gs)"
  shows "mset (covered_tasks self (group_step task gs)) =
           mset (covered_tasks self gs)
             + (if capable_agents self (dict_get task ''type'' ''unknown'') \<noteq> []
                then {#task#} else {#})"
proof -
  define ty where "ty = dict_get task ''type'' ''unknown''"
  define upd :: "string \<times> dict list \<Rightarrow> string \<times> dict list"
    where "upd = (\<lambda>(k, task_list). if k = ty then (k, task_list @ [task]) else (k, task_list))"
  have count: "mset (covered_tasks self (map upd xs)) =
      mset (covered_tasks self xs)
        + (if capable_agents self ty \<noteq> []
           then replicate_mset (length (filter (\<lambda>grp. fst grp = ty) xs)) task else {#})"
    for xs
    unfolding upd_def by (rule covered_tasks_append_task)
  show ?thesis
  proof (cases "map_of gs ty = None")
    case True
    then have absent: "ty \<notin> fst ` set gs"
      by (simp add: map_of_eq_None_iff)
    have step: "group_step task gs = map upd (gs @ [(ty, [])])"
      using True by (simp add: group_step_def Let_def upd_def ty_def)
    have "mset (covered_tasks self (gs @ [(ty, [])])) = mset (covered_tasks self gs)"
      by (simp add: covered_tasks_def)
    moreover have "length (filter (\<lambda>grp. fst grp = ty) (gs @ [(ty, [])])) = 1"
      using absent_key_never [OF absent] by simp
    ultimately show ?thesis
      unfolding step count ty_def [symmetric] by simp
  next
    case False
    then have present: "ty \<in> fst ` set gs"
      by (simp add: map_of_eq_None_iff)
    have step: "group_step task gs = map upd gs"
      using False by (simp add: group_step_def Let_def upd_def ty_def)
    show ?thesis
      unfolding step count ty_def [symmetric]
      using distinct_key_once [OF assms present] by simp
  qed
qed

lemma fold_group_step_covered_tasks:
  assumes "distinct (map fst gs)"
  shows "mset (covered_tasks self (fold group_step tasks gs)) =
           mset (covered_tasks self gs)
             + mset (filter (\<lambda>task. capable_agents self (dict_get task ''type'' ''unknown'')
                                \<noteq> []) tasks)"
  using assms
proof (induction tasks arbitrary: gs)
  case Nil
  then show ?case by simp
next
  case (Cons task tasks)
  from group_step_invariant [OF Cons.prems, of task self]
  have d: "distinct (map fst (group_step task gs))" by simp
  from Cons.IH [OF d] group_step_covered_tasks [OF Cons.prems, of self task]
  show ?case by simp
qed

lemma covered_tasks_group_tasks_by_type:
  "mset (covered_tasks self (group_tasks_by_type tasks)) =
     mset (filter (\<lambda>task. list_ex (\<lambda>a. can_handle_task a (dict_get task ''type'' ''unknown''))
                             (sub_agents self)) tasks)"
  using fold_group_step_covered_tasks [of "[]" self tasks]
  by (simp add: group_tasks_by_type_def covered_tasks_def capable_agents_nonempty)

lemma delegate_tasks_results:
  assumes f: "\<And>task a. execute_single_task task a = Inr (f task a)"
  shows "delegate_tasks self exec_time tasks =
           map (\<lambda>(task, a). f task a) (assignments self (group_tasks_by_type tasks))"
proof (cases "tasks = []")
  case True
  then show ?thesis
    by (simp add: delegate_tasks_def group_tasks_by_type_def assignments_def)
next
  case False
  then show ?thesis
    by (simp add: delegate_tasks_def fold_delegate_step_results [of f, OF f])
qed

lemma assignments_group_tasks_by_type_members:
  assumes "(task, a) \<in> set (assignments self (group_tasks_by_type tasks))"
  shows "a \<in> set (sub_agents self) \<and> can_handle_task a (dict_get task ''type'' ''unknown'')"
proof -
  from assignments_members [OF assms] obtain grp
    where grp: "grp \<in> set (group_tasks_by_type tasks)" and t: "task \<in> set (snd grp)"
      and a: "a \<in> set (capable_agents self (fst grp))"
    by blast
  from grp have "(fst grp, snd grp) \<in> set (group_tasks_by_type tasks)" by simp
  from group_tasks_by_type_members [OF this t]
  have "fst grp = dict_get task ''type'' ''unknown''" by simp
  with a show ?thesis by (simp add: capable_agents_def)
qed


text \<open>
  Claim C1. For every list of tasks, every set of registered agents and every order of
  completion, \<^verbatim>\<open>delegate_tasks\<close> returns one result for each execution of a list
  \<open>assigned\<close> of pairs of a task and an agent. The tasks of these pairs are, each as
  often as it occurs, the input tasks whose type (\<^verbatim>\<open>"unknown"\<close> when the key is
  absent) some registered agent accepts: a task of a group without a capable agent has
  no result, and every other task has exactly one. The agent of a pair is a registered
  agent that accepts the type of its task. The result of a pair is what the agent's
  \<^verbatim>\<open>execute_task\<close> returned, and when it raised, the synthetic result of status
  \<^verbatim>\<open>"failed"\<close> with the task's identifier and description, the text of the exception
  in its findings, no sources and confidence \<open>0\<close>: no exception of an agent leaves the
  function. In particular the number of results is the number of these tasks.
\<close>

theorem delegate_tasks_result_count:
  "(\<exists>assigned.
      delegate_tasks self exec_time tasks =
        map (\<lambda>(task, a).
               case execute_task a task of
                 Inr r \<Rightarrow> r
               | Inl e \<Rightarrow>
                   \<lparr>task_id = dict_get task ''task_id'' ''failed_task'',
                    task_description = dict_get task ''description'' ''Failed task'',
                    findings = ''Task failed with error: '' @ str_exn e,
                    sources = [], confidence_score = 0, status = ''failed''\<rparr>)
          assigned
      \<and> mset (map fst assigned) =
          mset (filter (\<lambda>task. list_ex (\<lambda>a. can_handle_task a
                                               (dict_get task ''type'' ''unknown''))
                                   (sub_agents self)) tasks)
      \<and> (\<forall>(task, a) \<in> set assigned.
            a \<in> set (sub_agents self)
            \<and> can_handle_task a (dict_get task ''type'' ''unknown'')))
   \<and> length (delegate_tasks self exec_time tasks) =
       length (filter (\<lambda>task. list_ex (\<lambda>a. can_handle_task a
                                             (dict_get task ''type'' ''unknown''))
                                (sub_agents self)) tasks)
   \<and> (\<forall>r \<in> set (delegate_tasks self exec_time tasks).
         \<exists>task \<in> set tasks. \<exists>a \<in> set (sub_agents self).
           can_handle_task a (dict_get task ''type'' ''unknown'')
           \<and> execute_single_task task a = Inr r)"
proof (intro conjI)
  let ?f = "\<lambda>task a. case execute_task a task of
                 Inr r \<Rightarrow> r
               | Inl e \<Rightarrow>
                   \<lparr>task_id = dict_get task ''task_id'' ''failed_task'',
                    task_description = dict_get task ''description'' ''Failed task'',
                    findings = ''Task failed with error: '' @ str_exn e,
                    sources = [], confidence_score = 0, status = ''failed''\<rparr>"
  let ?assigned = "assignments self (group_tasks_by_type tasks)"
  have "delegate_tasks self exec_time tasks = map (\<lambda>(task, a). ?f task a) ?assigned"
    by (rule delegate_tasks_results) (rule execute_single_task_result)
  moreover have "mset (map fst ?assigned) =
      mset (filter (\<lambda>task. list_ex (\<lambda>a. can_handle_task a
                                           (dict_get task ''type'' ''unknown''))
                               (sub_agents self)) tasks)"
    by (simp only: map_fst_assignments covered_tasks_group_tasks_by_type)
  moreover have "\<forall>(task, a) \<in> set ?assigned.
      a \<in> set (sub_agents self) \<and> can_handle_task a (dict_get task ''type'' ''unknown'')"
    using assignments_group_tasks_by_type_members by blast
  ultimately show "\<exists>assigned.
      delegate_tasks self exec_time tasks = map (\<lambda>(task, a). ?f task a) assigned
      \<and> mset (map fst assigned) =
          mset (filter (\<lambda>task. list_ex (\<lambda>a. can_handle_task a
                                               (dict_get task ''type'' ''unknown''))
                                   (sub_agents self)) tasks)
      \<and> (\<forall>(task, a) \<in> set assigned.
            a \<in> set (sub_agents self)
            \<and> can_handle_task a (dict_get task ''type'' ''unknown''))"
    by blast
next
  show "length (delegate_tasks self exec_time tasks) =
       length (filter (\<lambda>task. list_ex (\<lambda>a. can_handle_task a
                                             (dict_get task ''type'' ''unknown''))
                                (sub_agents self)) tasks)"
    by (rule length_delegate_tasks)
next
  show "\<forall>r \<in> set (delegate_tasks self exec_time tasks).
         \<exists>task \<in> set tasks. \<exists>a \<in> set (sub_agents self).
           can_handle_task a (dict_get task ''type'' ''unknown'')
           \<and> execute_single_task task a = Inr r"
    using delegate_tasks_members [of _ self exec_time tasks] by blast
qed

lemma sample_groups:
  "group_tasks_by_type [sample_task, unsupported_task, sample_task] =
     [(''web_search'', [sample_task, sample_task]), (''data_analysis'', [unsupported_task])]"
proof -
  have ty: "dict_get sample_task ''type'' ''unknown'' = ''web_search''"
    "dict_get unsupported_task ''type'' ''unknown'' = ''data_analysis''"
    by (simp_all add: sample_task_def unsupported_task_def dict_get_def)
  show ?thesis
    by (simp add: group_tasks_by_type_def group_step_def ty Let_def)
qed

lemma sample_delegation:
  "delegate_tasks sample_supervisor (\<lambda>i task. 0) [sample_task, unsupported_task, sample_task] =
     [\<lparr>task_id = ''research_task_1'', task_description = ''Research on solar power'',
       findings = ''Task failed with error: connection lost'',
       sources = [], confidence_score = 0, status = ''failed''\<rparr>,
      \<lparr>task_id = ''research_task_1'', task_description = ''Research on solar power'',
       findings = ''Task failed with error: connection lost'',
       sources = [], confidence_score = 0, status = ''failed''\<rparr>]"
proof -
  have cap: "capable_agents sample_supervisor ''web_search''
               = [failing_agent\<lparr>can_handle_task := web_can_handle_task\<rparr>]"
    "capable_agents sample_supervisor ''data_analysis'' = []"
    by (simp_all add: capable_agents_def sample_supervisor_def web_can_handle_task_def)
  have a: "assignments sample_supervisor
             (group_tasks_by_type [sample_task, unsupported_task, sample_task]) =
           [(sample_task, failing_agent\<lparr>can_handle_task := web_can_handle_task\<rparr>),
            (sample_task, failing_agent\<lparr>can_handle_task := web_can_handle_task\<rparr>)]"
    by (simp add: sample_groups assignments_def cap)
  have d: "dict_get sample_task ''task_id'' ''failed_task'' = ''research_task_1''"
    "dict_get sample_task ''description'' ''Failed task'' = ''Research on solar power''"
    by (simp_all add: sample_task_def dict_get_def)
  show ?thesis
    by (simp add: delegate_tasks_results [OF execute_single_task_result] a failing_agent_def d)
qed

text \<open>
  Claim C1 with one registered agent that accepts the types of the \<^verbatim>\<open>WebResearcher\<close>
  and always raises: of three tasks, the two of type \<^verbatim>\<open>web_search\<close> yield one
  synthetic failure result each and the one of type \<^verbatim>\<open>data_analysis\<close> yields none.
\<close>

theorem delegate_tasks_result_count_witness:
  "length (delegate_tasks sample_supervisor (\<lambda>i task. 0)
             [sample_task, unsupported_task, sample_task]) = 2
   \<and> delegate_tasks sample_supervisor (\<lambda>i task. 0) [sample_task, unsupported_task, sample_task] =
       [\<lparr>task_id = ''research_task_1'', task_description = ''Research on solar power'',
         findings = ''Task failed with error: connection lost'',
         sources = [], confidence_score = 0, status = ''failed''\<rparr>,
        \<lparr>task_id = ''research_task_1'', task_description = ''Research on solar power'',
         findings = ''Task failed with error: connection lost'',
         sources = [], confidence_score = 0, status = ''failed''\<rparr>]"
proof -
  have "length (delegate_tasks sample_supervisor (\<lambda>i task. 0)
                  [sample_task, unsupported_task, sample_task]) = 2"
    using delegate_tasks_result_count
      [of sample_supervisor "\<lambda>i task. 0" "[sample_task, unsupported_task, sample_task]"]
    by (simp add: sample_supervisor_def sample_task_def unsupported_task_def dict_get_def
        web_can_handle_task_def)
  then show ?thesis
    using sample_delegation by simp
qed

section \<open>Follow-up questions: the fallback\<close>

lemma str_nat_digits:
  "str_nat (Suc 0) = ''1''" "str_nat (Suc (Suc 0)) = ''2''"
  "str_nat (Suc (Suc (Suc 0))) = ''3''"
  by (simp_all add: str_nat.simps)

lemma numbered_three:
  "numbered_lines 1 [a, b, c] =
     ''1. '' @ a @ newline @ ''2. '' @ b @ newline @ ''3. '' @ c @ newline"
  by (simp add: str_nat_digits)

lemma generate_follow_up_questions_failure:
  assumes "follow_up_llm env research_topic = Inl e
           \<or> (\<exists>reply. follow_up_llm env research_topic = Inr reply
                 \<and> json_loads env (clean_response reply) = Inl e)"
  shows "generate_follow_up_questions env research_topic = follow_up_fallback research_topic"
  using assms by (auto simp: generate_follow_up_questions_def)

lemma third_question_without_topic:
  "\<not> sublist ''topic X''
       ''What is the primary goal or outcome you hope to achieve with this research?''"
  by (simp add: sublist_code)

text \<open>
  Claim C6 as stated fails: when the provider raises on the topic \<^verbatim>\<open>topic X\<close>, three
  questions are returned, and the third does not contain the topic.
\<close>

theorem follow_up_fallback_counterexample:
  "follow_up_llm failing_llm ''topic X'' = Inl (Exception ''provider down'')
   \<and> length (fst (generate_follow_up_questions failing_llm ''topic X'')) = 3
   \<and> \<not> sublist ''topic X'' (fst (generate_follow_up_questions failing_llm ''topic X'') ! 2)"
proof -
  have "follow_up_llm failing_llm ''topic X'' = Inl (Exception ''provider down'')"
    by (simp add: failing_llm_def)
  then have "generate_follow_up_questions failing_llm ''topic X'' = follow_up_fallback ''topic X''"
    by (simp add: generate_follow_up_questions_failure)
  then show ?thesis
    using third_question_without_topic
    by (simp add: follow_up_fallback_def fallback_questions_def failing_llm_def)
qed

text \<open>
  Claim C6, amended. When the call of the provider raises, or the parse of its cleaned
  reply raises, \<^verbatim>\<open>generate_follow_up_questions\<close> returns exactly three questions: the
  first two contain the topic, the third is a fixed question without it; the message
  is the header followed by the three questions, numbered from 1, one per line.
\<close>

theorem follow_up_fallback_questions:
  assumes "follow_up_llm env research_topic = Inl e
           \<or> (\<exists>reply. follow_up_llm env research_topic = Inr reply
                 \<and> json_loads env (clean_response reply) = Inl e)"
  shows "\<exists>q1 q2 q3.
           fst (generate_follow_up_questions env research_topic) = [q1, q2, q3]
           \<and> sublist research_topic q1 \<and> sublist research_topic q2
           \<and> q3 = ''What is the primary goal or outcome you hope to achieve with this research?''
           \<and> snd (generate_follow_up_questions env research_topic) =
               ''To better focus the research, please consider these follow-up questions:''
               @ newline @ newline
               @ ''1. '' @ q1 @ newline @ ''2. '' @ q2 @ newline @ ''3. '' @ q3 @ newline"
proof -
  define q1 where
    "q1 = ''What specific aspects of '' @ research_topic @ '' are you most interested in?''"
  define q2 where
    "q2 = ''Are there any time constraints or geographic focus for this research on ''
            @ research_topic @ ''?''"
  define q3 where
    "q3 = ''What is the primary goal or outcome you hope to achieve with this research?''"
  have s1: "sublist research_topic q1"
    unfolding q1_def by (rule sublist_appendI)
  have s2: "sublist research_topic q2"
    unfolding q2_def by (rule sublist_appendI)
  have fq: "fallback_questions research_topic = [q1, q2, q3]"
    by (simp add: fallback_questions_def q1_def q2_def q3_def)
  have g: "generate_follow_up_questions env research_topic =
             ([q1, q2, q3], message_header @ numbered_lines 1 [q1, q2, q3])"
    by (simp add: generate_follow_up_questions_failure [OF assms] follow_up_fallback_def fq)
  have "fst (generate_follow_up_questions env research_topic) = [q1, q2, q3]
        \<and> sublist research_topic q1 \<and> sublist research_topic q2
        \<and> q3 = ''What is the primary goal or outcome you hope to achieve with this research?''
        \<and> snd (generate_follow_up_questions env research_topic) =
            ''To better focus the research, please consider these follow-up questions:''
            @ newline @ newline
            @ ''1. '' @ q1 @ newline @ ''2. '' @ q2 @ newline @ ''3. '' @ q3 @ newline"
    using s1 s2 by (simp add: g str_nat_digits message_header_def q3_def)
  then show ?thesis by blast
qed

text \<open>
  The amended claim for a provider whose reply is not JSON.
\<close>

theorem follow_up_fallback_questions_witness:
  "follow_up_llm garbled_llm ''topic X'' = Inr ''Sorry, I cannot help.''
   \<and> json_loads garbled_llm (clean_response ''Sorry, I cannot help.'')
       = Inl (Exception ''Expecting value'')
   \<and> (\<exists>q1 q2 q3. fst (generate_follow_up_questions garbled_llm ''topic X'') = [q1, q2, q3]
         \<and> sublist ''topic X'' q1 \<and> sublist ''topic X'' q2)"
proof -
  have h: "follow_up_llm garbled_llm ''topic X'' = Inl (Exception ''Expecting value'')
           \<or> (\<exists>reply. follow_up_llm garbled_llm ''topic X'' = Inr reply
                 \<and> json_loads garbled_llm (clean_response reply)
                     = Inl (Exception ''Expecting value''))"
    by (simp add: garbled_llm_def)
  from follow_up_fallback_questions [OF h]
  show ?thesis by (simp add: garbled_llm_def) blast
qed

section \<open>Chunks of the Speaker\<close>

lemma re_split_no_space:
  assumes "\<And>c. c \<in> set s \<Longrightarrow> \<not> is_space c"
  shows "re_split in_sep cur s = [cur @ s]"
  using assms by (induction s arbitrary: in_sep cur) simp_all

lemma dropWhile_hd: "s \<noteq> [] \<Longrightarrow> \<not> P (hd s) \<Longrightarrow> dropWhile P (s @ t) = s @ t"
  by (cases s) simp_all

lemma strip_append_space:
  assumes "s \<noteq> []" "\<not> is_space (hd s)" "\<not> is_space (last s)"
  shows "strip (s @ '' '') = s"
proof -
  have sp: "is_space CHR '' ''"
    by (simp add: is_space_def)
  have "dropWhile is_space (s @ '' '') = s @ '' ''"
    using assms by (simp add: dropWhile_hd)
  moreover have "dropWhile is_space (rev s @ []) = rev s @ []"
    using assms by (intro dropWhile_hd) (simp_all add: hd_rev)
  ultimately show ?thesis
    using sp by (simp add: strip_def)
qed

lemma fold_chunk_step_single:
  "s \<noteq> [] \<Longrightarrow> fold (chunk_step max_length) [s] ([], []) = ([], s @ '' '')"
  by (simp add: chunk_step_def)

lemma split_into_chunks_one_sentence:
  assumes "text \<noteq> []" "\<And>c. c \<in> set text \<Longrightarrow> \<not> is_space c \<and> c \<noteq> CHR 0x0A"
  shows "split_into_chunks text max_length = [text]"
proof -
  have same: "replace_char (CHR 0x0A) CHR '' '' text = text"
    using assms(2) by (simp add: replace_char_def map_idI)
  have "re_split False [] text = [[] @ text]"
    using assms(2) by (intro re_split_no_space) simp
  moreover have "strip (text @ '' '') = text"
    using assms by (intro strip_append_space) simp_all
  ultimately show ?thesis
    using assms(1)
    by (simp add: split_into_chunks_def same Let_def fold_chunk_step_single del: fold_simps)
       (simp add: chunk_step_def)
qed

text \<open>
  Claim C9 fails on the code: a text of 4001 letters without a sentence boundary comes
  back as one chunk of 4001 characters, above the limit of 4000.
\<close>

theorem split_into_chunks_long_sentence:
  "split_into_chunks (replicate 4001 CHR ''a'') max_chunk_size = [replicate 4001 CHR ''a'']
   \<and> length (replicate 4001 CHR ''a'') > max_chunk_size"
proof -
  have "\<not> is_space CHR ''a''"
    by (simp add: is_space_def)
  then have "split_into_chunks (replicate 4001 CHR ''a'') max_chunk_size
               = [replicate 4001 CHR ''a'']"
    by (intro split_into_chunks_one_sentence) auto
  then show ?thesis
    by (simp add: max_chunk_size_def)
qed


lemma length_dropWhile_le': "length (dropWhile P xs) \<le> length xs"
  by (induction xs) auto

lemma length_strip_trailing_space:
  "length (strip (t @ '' '')) \<le> length t"
proof -
  have sp: "is_space CHR '' ''"
    by (simp add: is_space_def)
  define d where "d = dropWhile is_space (t @ '' '')"
  show ?thesis
  proof (cases "d = []")
    case True
    then show ?thesis by (simp add: strip_def d_def)
  next
    case False
    have suf: "suffix d (t @ '' '')"
      unfolding d_def by (rule suffix_dropWhile)
    then obtain p where p: "t @ '' '' = p @ d"
      by (auto simp: suffix_def)
    with False have "last d = CHR '' ''"
      by (metis last_appendR last_snoc)
    with False obtain d' where d': "d = d' @ '' ''"
      by (metis append_butlast_last_id)
    from p d' have "length d' \<le> length t"
      by (metis append_assoc butlast_snoc length_append le_add2)
    moreover have "strip (t @ '' '') = rev (dropWhile is_space (rev d'))"
      using sp by (simp add: strip_def d_def [symmetric] d')
    moreover have "length (dropWhile is_space (rev d')) \<le> length d'"
      using length_dropWhile_le' [of is_space "rev d'"] by simp
    ultimately show ?thesis by simp
  qed
qed

lemma chunk_step_inv:
  assumes "chunk_inv max_length st" "length sentence \<le> max_length"
  shows "chunk_inv max_length (chunk_step max_length sentence st)"
proof (cases "sentence = []")
  case True
  with assms show ?thesis by (simp add: chunk_step_def Let_def)
next
  case False
  obtain chunks cur where st: "st = (chunks, cur)" by (cases st)
  show ?thesis
  proof (cases "length cur + length sentence + 1 > max_length \<and> cur \<noteq> []")
    case True
    with assms(1) st obtain t where t: "cur = t @ '' ''" "length t \<le> max_length"
      by (auto simp: chunk_inv_def)
    then have "length (strip cur) \<le> max_length"
      using length_strip_trailing_space [of t] by simp
    with True False assms st show ?thesis
      by (auto simp: chunk_step_def Let_def chunk_inv_def)
  next
    case no_flush: False
    have "length (cur @ sentence) \<le> max_length"
    proof (cases "cur = []")
      case True
      with assms(2) show ?thesis by simp
    next
      case False
      with no_flush show ?thesis by simp
    qed
    moreover have "cur @ sentence @ '' '' = (cur @ sentence) @ '' ''"
      by simp
    ultimately have "\<exists>t. cur @ sentence @ '' '' = t @ '' '' \<and> length t \<le> max_length"
      by blast
    with no_flush False assms(1) st show ?thesis
      by (auto simp: chunk_step_def Let_def chunk_inv_def)
  qed
qed

lemma fold_chunk_step_inv:
  assumes "chunk_inv max_length st" "\<And>s. s \<in> set sentences \<Longrightarrow> length s \<le> max_length"
  shows "chunk_inv max_length (fold (chunk_step max_length) sentences st)"
  using assms
  by (induction sentences arbitrary: st) (simp_all add: chunk_step_inv)

lemma split_into_chunks_short_sentences:
  assumes "\<And>s. s \<in> set (re_split False [] (replace_char (CHR 0x0A) CHR '' '' text))
             \<Longrightarrow> length s \<le> max_length"
    and "chunk \<in> set (split_into_chunks text max_length)"
  shows "length chunk \<le> max_length"
proof -
  define st where
    "st = fold (chunk_step max_length)
            (re_split False [] (replace_char (CHR 0x0A) CHR '' '' text)) ([], [])"
  have "chunk_inv max_length ([], [])"
    by (simp add: chunk_inv_def)
  then have inv: "chunk_inv max_length st"
    unfolding st_def using assms(1) by (rule fold_chunk_step_inv)
  have chunks: "split_into_chunks text max_length =
                  (if snd st \<noteq> [] then fst st @ [strip (snd st)] else fst st)"
    by (simp add: split_into_chunks_def Let_def st_def)
  show ?thesis
  proof (cases "chunk \<in> set (fst st)")
    case True
    with inv show ?thesis by (simp add: chunk_inv_def)
  next
    case False
    with assms(2) chunks have ne: "snd st \<noteq> []" and c: "chunk = strip (snd st)"
      by (auto split: if_splits)
    from inv ne obtain t where "snd st = t @ '' ''" "length t \<le> max_length"
      by (auto simp: chunk_inv_def)
    with c show ?thesis
      using length_strip_trailing_space [of t] by simp
  qed
qed

end
